theory Spec2Isabelle
  imports Main "HOL-Library.Word" "HOL-Library.Sublist" "HOL-Library.Multiset"
    "HOL-Library.Product_Lexorder"
begin

section \<open>Strings of the host language\<close>

text \<open>
  A string of the program is a sequence of 16-bit code units. \<open>js\<close> writes such a
  string from a literal of ASCII characters.
\<close>

type_synonym code_unit = "16 word"

type_synonym jsstring = "code_unit list"

definition js :: "string \<Rightarrow> jsstring" where
  "js s = map (\<lambda>c. of_nat (of_char c)) s"

text \<open>
  \<open>String.prototype.trim\<close> removes the white space and line terminator code points
  from both ends: TAB, LF, VT, FF, CR, SP, NBSP, U+1680, U+2000 to U+200A, U+2028,
  U+2029, U+202F, U+205F, U+3000 and U+FEFF.
\<close>

definition is_whitespace :: "code_unit \<Rightarrow> bool" where
  "is_whitespace c \<longleftrightarrow>
     (0x09 \<le> c \<and> c \<le> 0x0D) \<or> c = 0x20 \<or> c = 0xA0 \<or> c = 0x1680 \<or>
     (0x2000 \<le> c \<and> c \<le> 0x200A) \<or> c = 0x2028 \<or> c = 0x2029 \<or> c = 0x202F \<or>
     c = 0x205F \<or> c = 0x3000 \<or> c = 0xFEFF"

definition trim :: "jsstring \<Rightarrow> jsstring" where
  "trim s = rev (dropWhile is_whitespace (rev (dropWhile is_whitespace s)))"

text \<open>\<open>s.includes(t)\<close>: \<open>t\<close> occurs in \<open>s\<close> as a contiguous run of code units.\<close>

fun starts_with :: "jsstring \<Rightarrow> jsstring \<Rightarrow> bool" where
  "starts_with s [] = True"
| "starts_with [] (c # cs) = False"
| "starts_with (x # xs) (c # cs) = (x = c \<and> starts_with xs cs)"

fun string_includes :: "jsstring \<Rightarrow> jsstring \<Rightarrow> bool" where
  "string_includes [] t = (t = [])"
| "string_includes (x # xs) t = (starts_with (x # xs) t \<or> string_includes xs t)"


section \<open>Functions of the platform\<close>

text \<open>
  The program calls four library functions whose results depend on Unicode tables, on
  the locale or on the date parser of the engine. They are parameters of the model:
  \<^item> \<open>toLowerCase s\<close> is \<open>s.toLowerCase()\<close>;
  \<^item> \<open>localeCompare a b\<close> is \<open>a.localeCompare(b)\<close>, a negative, zero or positive number;
  \<^item> \<open>dateTime s\<close> is \<open>new Date(s).getTime()\<close>, with \<open>None\<close> for \<open>NaN\<close> (an invalid
    date);
  \<^item> \<open>toISOString t\<close> is \<open>new Date(t).toISOString()\<close> for a valid time value \<open>t\<close>.
  Time values are integers of magnitude at most 8.64e15, so the sign of a difference
  of two of them is the sign of the difference of the integers.
\<close>

record platform =
  toLowerCase :: "jsstring \<Rightarrow> jsstring"
  localeCompare :: "jsstring \<Rightarrow> jsstring \<Rightarrow> int"
  dateTime :: "jsstring \<Rightarrow> int option"
  toISOString :: "int \<Rightarrow> jsstring"

datatype js_error = RangeError | SyntaxError

text \<open>
  \<open>new Date(s).toISOString()\<close> throws a \<open>RangeError\<close> when \<open>s\<close> is not a date.
\<close>

definition date_toISOString :: "platform \<Rightarrow> jsstring \<Rightarrow> js_error + jsstring" where
  "date_toISOString P s =
     (case dateTime P s of None \<Rightarrow> Inl RangeError | Some t \<Rightarrow> Inr (toISOString P t))"


section \<open>Data model\<close>

text \<open>
  The type \<open>Task\<close> of the source. The field \<open>id\<close> is named \<open>task_id\<close> here. An absent
  or undefined \<open>dueDate\<close> is \<open>None\<close>.
\<close>

datatype priority = Low | Medium | High

record task =
  task_id :: jsstring
  title :: jsstring
  description :: jsstring
  completed :: bool
  createdAt :: jsstring
  dueDate :: "jsstring option"
  priority :: priority

text \<open>
  The type \<open>FilterState\<close>. The fields \<open>priority\<close> and \<open>sort\<close> are named
  \<open>priority_filter\<close> and \<open>sort_option\<close>.
\<close>

datatype status_filter = AllStatus | Active | Completed

datatype priority_filter = AllPriorities | Only priority

datatype sort_option = Created | Due | Title | Priority

record FilterState =
  query :: jsstring
  status :: status_filter
  priority_filter :: priority_filter
  sort_option :: sort_option

definition defaultFilter :: FilterState where
  "defaultFilter =
     \<lparr>query = [], status = AllStatus, priority_filter = AllPriorities, sort_option = Created\<rparr>"

text \<open>The draft of the form, and the three pieces of state of the page.\<close>

record draft =
  draft_title :: jsstring
  draft_description :: jsstring
  draft_dueDate :: jsstring
  draft_priority :: priority

definition emptyDraft :: draft where
  "emptyDraft =
     \<lparr>draft_title = [], draft_description = [], draft_dueDate = [], draft_priority = Medium\<rparr>"

record page =
  tasks :: "task list"
  filterState :: FilterState
  draft :: draft

definition initialPage :: page where
  "initialPage = \<lparr>tasks = [], filterState = defaultFilter, draft = emptyDraft\<rparr>"


section \<open>Operations of the task store\<close>

text \<open>
  \<open>handleSubmit\<close>. The arguments \<open>uuid\<close> and \<open>now\<close> are what \<open>crypto.randomUUID()\<close> and
  \<open>new Date()\<close> return during the call. An empty string is falsy, so a draft whose
  trimmed title is empty returns at once, and an empty \<open>dueDate\<close> gives \<open>undefined\<close>.
  A non-empty \<open>dueDate\<close> that is not a date makes \<open>toISOString\<close> throw before
  \<open>setTasks\<close> is reached.
\<close>

definition handleSubmit :: "platform \<Rightarrow> jsstring \<Rightarrow> int \<Rightarrow> page \<Rightarrow> js_error + page" where
  "handleSubmit P uuid now s =
     (let d = draft s in
      if trim (draft_title d) = [] then Inr s
      else
        case (if draft_dueDate d = [] then Inr None
              else map_sum (\<lambda>e. e) Some (date_toISOString P (draft_dueDate d))) of
          Inl e \<Rightarrow> Inl e
        | Inr due \<Rightarrow>
            Inr (s\<lparr>tasks :=
                     \<lparr>task_id = uuid,
                      title = trim (draft_title d),
                      description = trim (draft_description d),
                      completed = False,
                      createdAt = toISOString P now,
                      dueDate = due,
                      priority = draft_priority d\<rparr> # tasks s,
                   draft := emptyDraft\<rparr>))"



text \<open>
  A value of \<open>Partial<Task>\<close>: each field is present or not. A present \<open>dueDate\<close> may
  itself be undefined.
\<close>

record patch =
  patch_id :: "jsstring option"
  patch_title :: "jsstring option"
  patch_description :: "jsstring option"
  patch_completed :: "bool option"
  patch_createdAt :: "jsstring option"
  patch_dueDate :: "jsstring option option"
  patch_priority :: "priority option"

definition emptyPatch :: patch where
  "emptyPatch =
     \<lparr>patch_id = None, patch_title = None, patch_description = None, patch_completed = None,
      patch_createdAt = None, patch_dueDate = None, patch_priority = None\<rparr>"

text \<open>The object spread \<open>{ ...task, ...patch }\<close>: the fields of the patch win.\<close>

definition spread_patch :: "task \<Rightarrow> patch \<Rightarrow> task" where
  "spread_patch t p =
     \<lparr>task_id = (case patch_id p of None \<Rightarrow> task_id t | Some v \<Rightarrow> v),
      title = (case patch_title p of None \<Rightarrow> title t | Some v \<Rightarrow> v),
      description = (case patch_description p of None \<Rightarrow> description t | Some v \<Rightarrow> v),
      completed = (case patch_completed p of None \<Rightarrow> completed t | Some v \<Rightarrow> v),
      createdAt = (case patch_createdAt p of None \<Rightarrow> createdAt t | Some v \<Rightarrow> v),
      dueDate = (case patch_dueDate p of None \<Rightarrow> dueDate t | Some v \<Rightarrow> v),
      priority = (case patch_priority p of None \<Rightarrow> priority t | Some v \<Rightarrow> v)\<rparr>"

definition updateTask :: "jsstring \<Rightarrow> patch \<Rightarrow> page \<Rightarrow> page" where
  "updateTask i p s =
     s\<lparr>tasks := map (\<lambda>t. if task_id t = i then spread_patch t p else t) (tasks s)\<rparr>"

definition deleteTask :: "jsstring \<Rightarrow> page \<Rightarrow> page" where
  "deleteTask i s = s\<lparr>tasks := filter (\<lambda>t. task_id t \<noteq> i) (tasks s)\<rparr>"

definition clearCompleted :: "page \<Rightarrow> page" where
  "clearCompleted s = s\<lparr>tasks := filter (\<lambda>t. \<not> completed t) (tasks s)\<rparr>"

text \<open>The two patches the page passes: the checkbox and the "Cycle priority" button.\<close>

definition checkbox_patch :: "bool \<Rightarrow> patch" where
  "checkbox_patch b = emptyPatch\<lparr>patch_completed := Some b\<rparr>"

definition cycle_patch :: "task \<Rightarrow> patch" where
  "cycle_patch t =
     emptyPatch\<lparr>patch_priority :=
       Some (if priority t = High then Medium else if priority t = Medium then Low else High)\<rparr>"


section \<open>The view projector\<close>

text \<open>
  The callback of \<open>filter\<close> in \<open>filteredTasks\<close>, with its early returns in the order
  of the source. A string is truthy when it is not empty.
\<close>

definition filter_callback :: "platform \<Rightarrow> FilterState \<Rightarrow> task \<Rightarrow> bool" where
  "filter_callback P f t =
     (if status f = Active \<and> completed t then False
      else if status f = Completed \<and> \<not> completed t then False
      else if priority_filter f \<noteq> AllPriorities \<and> Only (priority t) \<noteq> priority_filter f
        then False
      else if trim (query f) \<noteq> [] then
        (let term = toLowerCase P (query f) in
         string_includes (toLowerCase P (title t)) term \<or>
         string_includes (toLowerCase P (description t)) term)
      else True)"

fun priorityRank :: "priority \<Rightarrow> int" where
  "priorityRank High = 0"
| "priorityRank Medium = 1"
| "priorityRank Low = 2"

text \<open>
  \<open>!task.dueDate\<close> holds for an undefined and for an empty due date.
  \<open>new Date(task.dueDate).getTime()\<close> is \<open>NaN\<close> for an undefined one. A difference with
  a \<open>NaN\<close> operand is \<open>NaN\<close>.
\<close>

definition has_due :: "task \<Rightarrow> bool" where
  "has_due t \<longleftrightarrow> dueDate t \<noteq> None \<and> dueDate t \<noteq> Some []"

definition due_time :: "platform \<Rightarrow> task \<Rightarrow> int option" where
  "due_time P t = (case dueDate t of None \<Rightarrow> None | Some d \<Rightarrow> dateTime P d)"

definition minus_number :: "int option \<Rightarrow> int option \<Rightarrow> int option" where
  "minus_number a b =
     (case a of None \<Rightarrow> None | Some x \<Rightarrow> (case b of None \<Rightarrow> None | Some y \<Rightarrow> Some (x - y)))"

text \<open>The callback of \<open>sort\<close> in \<open>filteredTasks\<close>; \<open>None\<close> is \<open>NaN\<close>.\<close>

definition sort_callback :: "platform \<Rightarrow> FilterState \<Rightarrow> task \<Rightarrow> task \<Rightarrow> int option" where
  "sort_callback P f a b =
     (if sort_option f = Title then Some (localeCompare P (title a) (title b))
      else if sort_option f = Priority
        then Some (priorityRank (priority a) - priorityRank (priority b))
      else if sort_option f = Due then
        (if \<not> has_due a \<and> \<not> has_due b then Some 0
         else if \<not> has_due a then Some 1
         else if \<not> has_due b then Some (- 1)
         else minus_number (due_time P a) (due_time P b))
      else minus_number (dateTime P (createdAt b)) (dateTime P (createdAt a)))"

text \<open>
  \<open>Array.prototype.sort\<close> is stable. It reads the result of the callback through its
  sign, a \<open>NaN\<close> counting as zero. For a callback that is a consistent ordering there is
  one stable sorted arrangement of the array, and the stable insertion sort below
  computes it; for other callbacks the order is left to the engine.
\<close>

definition sort_compare :: "('a \<Rightarrow> 'a \<Rightarrow> int option) \<Rightarrow> 'a \<Rightarrow> 'a \<Rightarrow> int" where
  "sort_compare cmp x y = (case cmp x y of None \<Rightarrow> 0 | Some v \<Rightarrow> v)"

fun insert_sorted :: "('a \<Rightarrow> 'a \<Rightarrow> int option) \<Rightarrow> 'a \<Rightarrow> 'a list \<Rightarrow> 'a list" where
  "insert_sorted cmp x [] = [x]"
| "insert_sorted cmp x (y # ys) =
     (if sort_compare cmp x y \<le> 0 then x # y # ys else y # insert_sorted cmp x ys)"

definition array_sort :: "('a \<Rightarrow> 'a \<Rightarrow> int option) \<Rightarrow> 'a list \<Rightarrow> 'a list" where
  "array_sort cmp xs = foldr (insert_sorted cmp) xs []"

text \<open>The value of \<open>filteredTasks\<close>: \<open>[...tasks].filter(...).sort(...)\<close>.\<close>

definition filteredTasks :: "platform \<Rightarrow> task list \<Rightarrow> FilterState \<Rightarrow> task list" where
  "filteredTasks P ts f = array_sort (sort_callback P f) (filter (filter_callback P f) ts)"

definition completedCount :: "task list \<Rightarrow> nat" where
  "completedCount ts = length (filter completed ts)"

text \<open>
  The rank of a task in the order by due date: the tasks with a due date first, by
  their time, then the others. \<open>due_le P a b\<close> says that \<open>a\<close> may stand before \<open>b\<close>.
\<close>

definition due_key :: "platform \<Rightarrow> task \<Rightarrow> nat \<times> int" where
  "due_key P t = (if has_due t then (0, the (due_time P t)) else (1, 0))"

definition due_le :: "platform \<Rightarrow> task \<Rightarrow> task \<Rightarrow> bool" where
  "due_le P a b =
     (if has_due a then
        (if has_due b then
           (case due_time P a of None \<Rightarrow> False
            | Some x \<Rightarrow> (case due_time P b of None \<Rightarrow> False | Some y \<Rightarrow> x \<le> y))
         else True)
      else \<not> has_due b)"


section \<open>The projector on a store of arrays\<close>

text \<open>
  \<open>sort\<close> works in place, so what \<open>filteredTasks\<close> does to the array of the state
  depends on which array it sorts. Here arrays live in a store, an address being an
  index into it: the spread \<open>[...tasks]\<close> and \<open>filter\<close> each allocate a new array,
  \<open>sort\<close> overwrites the array it is called on and returns its address. The tasks
  themselves are not written by either callback.
\<close>

type_synonym store = "task list list"

definition array_spread :: "store \<Rightarrow> nat \<Rightarrow> (store \<times> nat) option" where
  "array_spread h a = (if a < length h then Some (h @ [h ! a], length h) else None)"

definition array_filter :: "(task \<Rightarrow> bool) \<Rightarrow> store \<Rightarrow> nat \<Rightarrow> (store \<times> nat) option" where
  "array_filter p h a = (if a < length h then Some (h @ [filter p (h ! a)], length h) else None)"

definition array_sort_in_place ::
    "(task \<Rightarrow> task \<Rightarrow> int option) \<Rightarrow> store \<Rightarrow> nat \<Rightarrow> (store \<times> nat) option" where
  "array_sort_in_place cmp h a =
     (if a < length h then Some (h[a := array_sort cmp (h ! a)], a) else None)"

definition filteredTasks_store ::
    "platform \<Rightarrow> FilterState \<Rightarrow> store \<Rightarrow> nat \<Rightarrow> (store \<times> nat) option" where
  "filteredTasks_store P f h tasks_addr =
     (case array_spread h tasks_addr of
        None \<Rightarrow> None
      | Some (h1, a1) \<Rightarrow>
          (case array_filter (filter_callback P f) h1 a1 of
             None \<Rightarrow> None
           | Some (h2, a2) \<Rightarrow> array_sort_in_place (sort_callback P f) h2 a2))"


section \<open>JSON text\<close>

text \<open>
  The values \<open>JSON.parse\<close> returns. A number is kept as its literal. An object keeps its
  members in the order in which their keys first occur; nothing below reads that order.
\<close>

datatype json =
  JNull | JBool bool | JNumber jsstring | JString jsstring
| JArray "json list" | JObject "(jsstring \<times> json) list"

datatype token =
  LBrace | RBrace | LBracket | RBracket | Colon | Comma
| TString jsstring | TNumber jsstring | TTrue | TFalse | TNull

subsection \<open>Tokens\<close>

definition is_json_space :: "code_unit \<Rightarrow> bool" where
  "is_json_space c \<longleftrightarrow> c = 0x09 \<or> c = 0x0A \<or> c = 0x0D \<or> c = 0x20"

definition is_digit :: "code_unit \<Rightarrow> bool" where
  "is_digit c \<longleftrightarrow> 0x30 \<le> c \<and> c \<le> 0x39"

definition hex_value :: "code_unit \<Rightarrow> nat option" where
  "hex_value c =
     (if 0x30 \<le> c \<and> c \<le> 0x39 then Some (unat c - 48)
      else if 0x61 \<le> c \<and> c \<le> 0x66 then Some (unat c - 87)
      else if 0x41 \<le> c \<and> c \<le> 0x46 then Some (unat c - 55)
      else None)"

definition hex4_value ::
    "code_unit \<Rightarrow> code_unit \<Rightarrow> code_unit \<Rightarrow> code_unit \<Rightarrow> code_unit option" where
  "hex4_value a b c d =
     (case hex_value a of None \<Rightarrow> None | Some p \<Rightarrow>
      (case hex_value b of None \<Rightarrow> None | Some q \<Rightarrow>
       (case hex_value c of None \<Rightarrow> None | Some r \<Rightarrow>
        (case hex_value d of None \<Rightarrow> None | Some s \<Rightarrow>
           Some (of_nat (((p * 16 + q) * 16 + r) * 16 + s))))))"

text \<open>
  The code unit an escape denotes, from the character after the backslash: a quote,
  a backslash, a slash, or one of the letters b, f, n, r, t.
\<close>

definition escape_value :: "code_unit \<Rightarrow> code_unit option" where
  "escape_value e =
     (if e = 0x22 \<or> e = 0x5C \<or> e = 0x2F then Some e
      else if e = 0x62 then Some 0x08
      else if e = 0x66 then Some 0x0C
      else if e = 0x6E then Some 0x0A
      else if e = 0x72 then Some 0x0D
      else if e = 0x74 then Some 0x09
      else None)"

text \<open>
  The characters of a string literal after its opening quote: the string they denote
  and the text after the closing quote.
\<close>

fun scan_string :: "jsstring \<Rightarrow> (jsstring \<times> jsstring) option" where
  "scan_string [] = None"
| "scan_string (c # cs) =
     (if c = 0x22 then Some ([], cs)
      else if c = 0x5C then
        (case cs of
           [] \<Rightarrow> None
         | e # cs' \<Rightarrow>
             if e = 0x75 then
               (case cs' of
                  h1 # h2 # h3 # h4 # cs'' \<Rightarrow>
                    (case hex4_value h1 h2 h3 h4 of
                       None \<Rightarrow> None
                     | Some u \<Rightarrow> map_option (apfst (Cons u)) (scan_string cs''))
                | _ \<Rightarrow> None)
             else
               (case escape_value e of
                  None \<Rightarrow> None
                | Some u \<Rightarrow> map_option (apfst (Cons u)) (scan_string cs')))
      else if c < 0x20 then None
      else map_option (apfst (Cons c)) (scan_string cs))"

text \<open>
  A number: an optional minus, an integer part without a leading zero, an optional
  fraction, an optional exponent.
\<close>

definition scan_digits :: "jsstring \<Rightarrow> (jsstring \<times> jsstring) option" where
  "scan_digits s =
     (if takeWhile is_digit s = [] then None
      else Some (takeWhile is_digit s, dropWhile is_digit s))"

definition scan_integer :: "jsstring \<Rightarrow> (jsstring \<times> jsstring) option" where
  "scan_integer s =
     (case s of
        [] \<Rightarrow> None
      | d # s' \<Rightarrow> if d = 0x30 then Some ([d], s') else scan_digits s)"

definition scan_fraction :: "jsstring \<Rightarrow> (jsstring \<times> jsstring) option" where
  "scan_fraction s =
     (case s of
        [] \<Rightarrow> Some ([], s)
      | p # s' \<Rightarrow>
          if p = 0x2E then map_option (apfst (Cons p)) (scan_digits s') else Some ([], s))"

definition scan_exponent :: "jsstring \<Rightarrow> (jsstring \<times> jsstring) option" where
  "scan_exponent s =
     (case s of
        [] \<Rightarrow> Some ([], s)
      | e # s' \<Rightarrow>
          if e = 0x65 \<or> e = 0x45 then
            (case s' of
               [] \<Rightarrow> None
             | g # s'' \<Rightarrow>
                 if g = 0x2B \<or> g = 0x2D
                 then map_option (apfst (\<lambda>ds. e # g # ds)) (scan_digits s'')
                 else map_option (apfst (Cons e)) (scan_digits s'))
          else Some ([], s))"

definition scan_sign :: "jsstring \<Rightarrow> jsstring \<times> jsstring" where
  "scan_sign s = (case s of [] \<Rightarrow> ([], s) | m # s' \<Rightarrow> if m = 0x2D then ([m], s') else ([], s))"

definition scan_number :: "jsstring \<Rightarrow> (jsstring \<times> jsstring) option" where
  "scan_number s =
     (case scan_sign s of
        (sign, s0) \<Rightarrow>
          (case scan_integer s0 of
             None \<Rightarrow> None
           | Some (i, s1) \<Rightarrow>
               (case scan_fraction s1 of
                  None \<Rightarrow> None
                | Some (f, s2) \<Rightarrow>
                    (case scan_exponent s2 of
                       None \<Rightarrow> None
                     | Some (e, s3) \<Rightarrow> Some (sign @ i @ f @ e, s3)))))"

lemma scan_string_length: "scan_string cs = Some (s, rest) \<Longrightarrow> length rest < Suc (length cs)"
proof (induction cs arbitrary: s rule: scan_string.induct)
  case 1
  then show ?case by simp
next
  case (2 c cs)
  then show ?case
    by (fastforce split: if_splits list.splits option.splits)
qed

lemma scan_digits_length: "scan_digits s = Some (ds, rest) \<Longrightarrow> length rest \<le> length s"
  by (auto simp: scan_digits_def length_dropWhile_le split: if_splits)

lemma scan_integer_length: "scan_integer s = Some (ds, rest) \<Longrightarrow> length rest < length s"
  by (cases s) (auto simp: scan_integer_def scan_digits_def takeWhile_eq_Nil_iff
      intro: le_imp_less_Suc length_dropWhile_le split: if_splits)

lemma scan_fraction_length: "scan_fraction s = Some (ds, rest) \<Longrightarrow> length rest \<le> length s"
  by (cases s) (auto simp: scan_fraction_def dest!: scan_digits_length split: if_splits)

lemma scan_exponent_length: "scan_exponent s = Some (ds, rest) \<Longrightarrow> length rest \<le> length s"
  by (cases s)
    (auto simp: scan_exponent_def dest!: scan_digits_length split: if_splits list.splits)

lemma scan_number_length:
  assumes "scan_number s = Some (n, rest)"
  shows "length rest < length s"
proof -
  obtain sign s0 where s0: "scan_sign s = (sign, s0)"
    by (cases "scan_sign s")
  then have le0: "length s0 \<le> length s"
    by (auto simp: scan_sign_def split: list.splits if_splits)
  from assms s0 obtain i s1 f s2 e where
    "scan_integer s0 = Some (i, s1)" "scan_fraction s1 = Some (f, s2)"
    "scan_exponent s2 = Some (e, rest)"
    by (auto simp: scan_number_def split: option.splits)
  then have "length s1 < length s0" "length s2 \<le> length s1" "length rest \<le> length s2"
    by (auto dest: scan_integer_length scan_fraction_length scan_exponent_length)
  with le0 show ?thesis by simp
qed

text \<open>The tokens of a text; \<open>None\<close> when some part of it is no token.\<close>

function lex :: "jsstring \<Rightarrow> token list option" where
  "lex [] = Some []"
| "lex (c # cs) =
     (if is_json_space c then lex cs
      else if c = 0x7B then map_option (Cons LBrace) (lex cs)
      else if c = 0x7D then map_option (Cons RBrace) (lex cs)
      else if c = 0x5B then map_option (Cons LBracket) (lex cs)
      else if c = 0x5D then map_option (Cons RBracket) (lex cs)
      else if c = 0x3A then map_option (Cons Colon) (lex cs)
      else if c = 0x2C then map_option (Cons Comma) (lex cs)
      else if c = 0x22 then
        (case scan_string cs of
           None \<Rightarrow> None
         | Some (s, rest) \<Rightarrow> map_option (Cons (TString s)) (lex rest))
      else if c = 0x2D \<or> is_digit c then
        (case scan_number (c # cs) of
           None \<Rightarrow> None
         | Some (n, rest) \<Rightarrow> map_option (Cons (TNumber n)) (lex rest))
      else if starts_with (c # cs) (js ''true'') then map_option (Cons TTrue) (lex (drop 3 cs))
      else if starts_with (c # cs) (js ''false'') then map_option (Cons TFalse) (lex (drop 4 cs))
      else if starts_with (c # cs) (js ''null'') then map_option (Cons TNull) (lex (drop 3 cs))
      else None)"
  by pat_completeness auto
termination
  by (relation "measure length") (auto dest: scan_string_length scan_number_length)

declare lex.simps(2) [simp del]

subsection \<open>Values\<close>

text \<open>
  A member whose key is already there replaces the value of that key.
\<close>

fun define_property ::
    "(jsstring \<times> json) list \<Rightarrow> jsstring \<Rightarrow> json \<Rightarrow> (jsstring \<times> json) list" where
  "define_property [] k v = [(k, v)]"
| "define_property ((k', v') # ms) k v =
     (if k' = k then (k, v) # ms else (k', v') # define_property ms k v)"

text \<open>
  The value at the head of a list of tokens, and the tokens after it.
  \<open>parse_elements\<close> and \<open>parse_members\<close> read what follows an opening bracket or brace
  that is not closed at once. The tests on the lengths make the recursion well founded;
  they always hold (\<open>parse_value_rest\<close> below).
\<close>

function parse_value :: "token list \<Rightarrow> (json \<times> token list) option"
  and parse_elements :: "json list \<Rightarrow> token list \<Rightarrow> (json list \<times> token list) option"
  and parse_members ::
    "(jsstring \<times> json) list \<Rightarrow> token list \<Rightarrow> ((jsstring \<times> json) list \<times> token list) option"
where
  "parse_value ts =
     (case ts of
        [] \<Rightarrow> None
      | t # ts' \<Rightarrow>
          (case t of
             TNull \<Rightarrow> Some (JNull, ts')
           | TTrue \<Rightarrow> Some (JBool True, ts')
           | TFalse \<Rightarrow> Some (JBool False, ts')
           | TNumber n \<Rightarrow> Some (JNumber n, ts')
           | TString s \<Rightarrow> Some (JString s, ts')
           | LBracket \<Rightarrow>
               (case ts' of
                  RBracket # ts'' \<Rightarrow> Some (JArray [], ts'')
                | _ \<Rightarrow> map_option (apfst JArray) (parse_elements [] ts'))
           | LBrace \<Rightarrow>
               (case ts' of
                  RBrace # ts'' \<Rightarrow> Some (JObject [], ts'')
                | _ \<Rightarrow> map_option (apfst JObject) (parse_members [] ts'))
           | _ \<Rightarrow> None))"
| "parse_elements acc ts =
     (case parse_value ts of
        None \<Rightarrow> None
      | Some (v, rest) \<Rightarrow>
          (case rest of
             Comma # rest' \<Rightarrow>
               if length rest' < length ts then parse_elements (acc @ [v]) rest' else None
           | RBracket # rest' \<Rightarrow> Some (acc @ [v], rest')
           | _ \<Rightarrow> None))"
| "parse_members acc ts =
     (case ts of
        TString k # Colon # ts' \<Rightarrow>
          (case parse_value ts' of
             None \<Rightarrow> None
           | Some (v, rest) \<Rightarrow>
               (case rest of
                  Comma # rest' \<Rightarrow>
                    if length rest' < length ts
                    then parse_members (define_property acc k v) rest' else None
                | RBrace # rest' \<Rightarrow> Some (define_property acc k v, rest')
                | _ \<Rightarrow> None))
      | _ \<Rightarrow> None)"
  by pat_completeness auto
termination
  by (relation "measure (\<lambda>x. case x of
                    Inl ts \<Rightarrow> 2 * length ts
                  | Inr (Inl (acc, ts)) \<Rightarrow> 2 * length ts + 1
                  | Inr (Inr (acc, ts)) \<Rightarrow> 2 * length ts + 1)")
    auto

declare parse_value.simps [simp del] parse_elements.simps [simp del]
  parse_members.simps [simp del]

text \<open>\<open>JSON.parse\<close>: one value, with nothing but white space around it.\<close>

definition JSON_parse :: "jsstring \<Rightarrow> js_error + json" where
  "JSON_parse s =
     (case lex s of
        None \<Rightarrow> Inl SyntaxError
      | Some ts \<Rightarrow>
          (case parse_value ts of
             None \<Rightarrow> Inl SyntaxError
           | Some (v, rest) \<Rightarrow> if rest = [] then Inr v else Inl SyntaxError))"

subsection \<open>Writing a task collection\<close>

text \<open>
  \<open>QuoteJSONString\<close>: the two-character escapes, the escape with four lower-case
  hexadecimal digits for the other control characters and for a surrogate that is not
  half of a pair, and every other code unit as it is.
\<close>

definition hex_digit :: "nat \<Rightarrow> code_unit" where
  "hex_digit n = of_nat (if n < 10 then 48 + n else 87 + n)"

definition unicode_escape :: "code_unit \<Rightarrow> jsstring" where
  "unicode_escape c =
     [0x5C, 0x75, hex_digit (unat c div 4096), hex_digit (unat c div 256 mod 16),
      hex_digit (unat c div 16 mod 16), hex_digit (unat c mod 16)]"

definition is_high_surrogate :: "code_unit \<Rightarrow> bool" where
  "is_high_surrogate c \<longleftrightarrow> 0xD800 \<le> c \<and> c \<le> 0xDBFF"

definition is_low_surrogate :: "code_unit \<Rightarrow> bool" where
  "is_low_surrogate c \<longleftrightarrow> 0xDC00 \<le> c \<and> c \<le> 0xDFFF"

definition quote_unit :: "code_unit \<Rightarrow> jsstring" where
  "quote_unit c =
     (if c = 0x08 then [0x5C, 0x62]
      else if c = 0x09 then [0x5C, 0x74]
      else if c = 0x0A then [0x5C, 0x6E]
      else if c = 0x0C then [0x5C, 0x66]
      else if c = 0x0D then [0x5C, 0x72]
      else if c = 0x22 then [0x5C, 0x22]
      else if c = 0x5C then [0x5C, 0x5C]
      else if c < 0x20 \<or> is_high_surrogate c \<or> is_low_surrogate c then unicode_escape c
      else [c])"

fun quote_units :: "jsstring \<Rightarrow> jsstring" where
  "quote_units [] = []"
| "quote_units [c] = quote_unit c"
| "quote_units (c # d # cs) =
     (if is_high_surrogate c \<and> is_low_surrogate d then c # d # quote_units cs
      else quote_unit c @ quote_units (d # cs))"

definition QuoteJSONString :: "jsstring \<Rightarrow> jsstring" where
  "QuoteJSONString s = 0x22 # quote_units s @ [0x22]"

fun priority_string :: "priority \<Rightarrow> jsstring" where
  "priority_string Low = js ''low''"
| "priority_string Medium = js ''medium''"
| "priority_string High = js ''high''"

text \<open>
  \<open>JSON.stringify\<close> of a task writes its properties in the order in which
  \<open>handleSubmit\<close> creates them, which the spread of \<open>updateTask\<close> keeps, and leaves out
  an undefined \<open>dueDate\<close>. Without an indentation argument it writes no white space.
\<close>

definition stringify_task :: "task \<Rightarrow> jsstring" where
  \<open>stringify_task t =
     js ''{"id":'' @ QuoteJSONString (task_id t) @
     js '',"title":'' @ QuoteJSONString (title t) @
     js '',"description":'' @ QuoteJSONString (description t) @
     js '',"completed":'' @ (if completed t then js ''true'' else js ''false'') @
     js '',"createdAt":'' @ QuoteJSONString (createdAt t) @
     (case dueDate t of None \<Rightarrow> [] | Some d \<Rightarrow> js '',"dueDate":'' @ QuoteJSONString d) @
     js '',"priority":'' @ QuoteJSONString (priority_string (priority t)) @
     js ''}''\<close>

fun join_comma :: "jsstring list \<Rightarrow> jsstring" where
  "join_comma [] = []"
| "join_comma [x] = x"
| "join_comma (x # y # ys) = x @ 0x2C # join_comma (y # ys)"

definition JSON_stringify :: "task list \<Rightarrow> jsstring" where
  "JSON_stringify ts = 0x5B # join_comma (map stringify_task ts) @ [0x5D]"

text \<open>The tokens of the text of a task, and of texts joined by commas.\<close>

definition task_tokens :: "task \<Rightarrow> token list" where
  "task_tokens t =
     [LBrace, TString (js ''id''), Colon, TString (task_id t), Comma,
      TString (js ''title''), Colon, TString (title t), Comma,
      TString (js ''description''), Colon, TString (description t), Comma,
      TString (js ''completed''), Colon, (if completed t then TTrue else TFalse), Comma,
      TString (js ''createdAt''), Colon, TString (createdAt t), Comma] @
     (case dueDate t of None \<Rightarrow> []
      | Some d \<Rightarrow> [TString (js ''dueDate''), Colon, TString d, Comma]) @
     [TString (js ''priority''), Colon, TString (priority_string (priority t)), RBrace]"

fun join_tokens :: "token list list \<Rightarrow> token list" where
  "join_tokens [] = []"
| "join_tokens [x] = x"
| "join_tokens (x # y # ys) = x @ Comma # join_tokens (y # ys)"

subsection \<open>Tasks as values\<close>

text \<open>
  The value a task is when read back, and the task a value is when it has the shape of
  the type \<open>Task\<close>: an object with strings \<open>id\<close>, \<open>title\<close>, \<open>description\<close> and
  \<open>createdAt\<close>, a boolean \<open>completed\<close>, a \<open>priority\<close> among the three, and a \<open>dueDate\<close>
  that is a string or is not there.
\<close>

definition json_of_task :: "task \<Rightarrow> json" where
  "json_of_task t =
     JObject
       ([(js ''id'', JString (task_id t)),
         (js ''title'', JString (title t)),
         (js ''description'', JString (description t)),
         (js ''completed'', JBool (completed t)),
         (js ''createdAt'', JString (createdAt t))] @
        (case dueDate t of None \<Rightarrow> [] | Some d \<Rightarrow> [(js ''dueDate'', JString d)]) @
        [(js ''priority'', JString (priority_string (priority t)))])"

definition priority_of_string :: "jsstring \<Rightarrow> priority option" where
  "priority_of_string s =
     (if s = js ''low'' then Some Low
      else if s = js ''medium'' then Some Medium
      else if s = js ''high'' then Some High
      else None)"

definition string_member :: "(jsstring \<times> json) list \<Rightarrow> jsstring \<Rightarrow> jsstring option" where
  "string_member ms k = (case map_of ms k of Some (JString s) \<Rightarrow> Some s | _ \<Rightarrow> None)"

definition bool_member :: "(jsstring \<times> json) list \<Rightarrow> jsstring \<Rightarrow> bool option" where
  "bool_member ms k = (case map_of ms k of Some (JBool b) \<Rightarrow> Some b | _ \<Rightarrow> None)"

definition optional_string_member ::
    "(jsstring \<times> json) list \<Rightarrow> jsstring \<Rightarrow> jsstring option option" where
  "optional_string_member ms k =
     (case map_of ms k of None \<Rightarrow> Some None | Some (JString s) \<Rightarrow> Some (Some s) | _ \<Rightarrow> None)"

definition task_of_json :: "json \<Rightarrow> task option" where
  "task_of_json v =
     (case v of
        JObject ms \<Rightarrow>
          (case string_member ms (js ''id'') of None \<Rightarrow> None | Some i \<Rightarrow>
           (case string_member ms (js ''title'') of None \<Rightarrow> None | Some ti \<Rightarrow>
            (case string_member ms (js ''description'') of None \<Rightarrow> None | Some de \<Rightarrow>
             (case bool_member ms (js ''completed'') of None \<Rightarrow> None | Some co \<Rightarrow>
              (case string_member ms (js ''createdAt'') of None \<Rightarrow> None | Some cr \<Rightarrow>
               (case optional_string_member ms (js ''dueDate'') of None \<Rightarrow> None | Some du \<Rightarrow>
                (case string_member ms (js ''priority'') of None \<Rightarrow> None | Some ps \<Rightarrow>
                 (case priority_of_string ps of None \<Rightarrow> None | Some pr \<Rightarrow>
                    Some \<lparr>task_id = i, title = ti, description = de, completed = co,
                          createdAt = cr, dueDate = du, priority = pr\<rparr>))))))))
      | _ \<Rightarrow> None)"


section \<open>Persistence\<close>

text \<open>
  The local storage is a map from keys to strings. The second effect of the page
  writes the collection under the fixed key after every change of \<open>tasks\<close>.
\<close>

type_synonym storage = "jsstring \<rightharpoonup> jsstring"

definition LOCAL_STORAGE_KEY :: jsstring where
  "LOCAL_STORAGE_KEY = js ''agentic_todo_tasks''"

definition persist_effect :: "task list \<Rightarrow> storage \<Rightarrow> storage" where
  "persist_effect ts st = st(LOCAL_STORAGE_KEY \<mapsto> JSON_stringify ts)"

text \<open>
  The first effect, run once when the page is mounted. Its result is the value of
  \<open>tasks\<close> after it and the errors it passed to \<open>console.error\<close>. \<open>getItem\<close> gives
  \<open>null\<close> for a missing key, and \<open>!saved\<close> also holds for the empty string. The cast
  \<open>as Task[]\<close> checks nothing, so \<open>setTasks\<close> receives whatever array was parsed, as
  values; \<open>current\<close> is the collection before the effect, the empty one of \<open>useState\<close>.
\<close>

definition try_catch :: "js_error + 'a \<Rightarrow> (js_error \<Rightarrow> js_error + 'a) \<Rightarrow> js_error + 'a" where
  "try_catch body handler = (case body of Inl e \<Rightarrow> handler e | Inr x \<Rightarrow> Inr x)"

definition load_effect :: "storage \<Rightarrow> json list \<Rightarrow> js_error + json list \<times> js_error list" where
  "load_effect st current =
     (case st LOCAL_STORAGE_KEY of
        None \<Rightarrow> Inr (current, [])
      | Some saved \<Rightarrow>
          if saved = [] then Inr (current, [])
          else
            try_catch
              (case JSON_parse saved of
                 Inl e \<Rightarrow> Inl e
               | Inr parsed \<Rightarrow>
                   (case parsed of
                      JArray xs \<Rightarrow> Inr (xs, [])
                    | _ \<Rightarrow> Inr (current, [])))
              (\<lambda>e. Inr (current, [e])))"

section \<open>A reference platform\<close>

text \<open>
  One instance of the platform, to evaluate the operations on concrete inputs. It
  agrees with the functions of an engine on the inputs used below:
  \<^item> \<open>ascii_lower\<close> is \<open>toLowerCase\<close> on strings of ASCII code units;
  \<^item> \<open>iso_dateTime\<close> reads the two date formats the page itself produces, the value
    \<open>YYYY-MM-DD\<close> of a date input (midnight UTC) and the format
    \<open>YYYY-MM-DDTHH:mm:ss.sssZ\<close> of \<open>toISOString\<close>, and takes every other string for
    an invalid date;
  \<^item> \<open>iso_toISOString\<close> writes a time value in the format of \<open>toISOString\<close>;
  \<^item> \<open>code_unit_compare\<close> orders strings by their code units; it stands for
    \<open>localeCompare\<close>, whose order depends on the locale.
\<close>

definition ascii_lower :: "jsstring \<Rightarrow> jsstring" where
  "ascii_lower s = map (\<lambda>c. if 0x41 \<le> c \<and> c \<le> 0x5A then c + 0x20 else c) s"

fun code_unit_compare :: "jsstring \<Rightarrow> jsstring \<Rightarrow> int" where
  "code_unit_compare [] [] = 0"
| "code_unit_compare [] (y # ys) = - 1"
| "code_unit_compare (x # xs) [] = 1"
| "code_unit_compare (x # xs) (y # ys) =
     (if x < y then - 1 else if y < x then 1 else code_unit_compare xs ys)"

definition digit_value :: "code_unit \<Rightarrow> int option" where
  "digit_value c = (if 0x30 \<le> c \<and> c \<le> 0x39 then Some (uint c - 48) else None)"

fun decimal_from :: "int \<Rightarrow> jsstring \<Rightarrow> int option" where
  "decimal_from n [] = Some n"
| "decimal_from n (c # cs) =
     (case digit_value c of None \<Rightarrow> None | Some d \<Rightarrow> decimal_from (10 * n + d) cs)"

definition decimal :: "jsstring \<Rightarrow> int option" where
  "decimal s = (if s = [] then None else decimal_from 0 s)"

definition is_leap :: "int \<Rightarrow> bool" where
  "is_leap y \<longleftrightarrow> y mod 4 = 0 \<and> (y mod 100 \<noteq> 0 \<or> y mod 400 = 0)"

definition days_in_month :: "int \<Rightarrow> int \<Rightarrow> int" where
  "days_in_month y m =
     (if m = 2 then (if is_leap y then 29 else 28)
      else if m = 4 \<or> m = 6 \<or> m = 9 \<or> m = 11 then 30 else 31)"

text \<open>The number of days from 1970-01-01 to a date of the proleptic Gregorian calendar.\<close>

definition days_from_civil :: "int \<Rightarrow> int \<Rightarrow> int \<Rightarrow> int" where
  "days_from_civil y m d =
     (let y' = (if m \<le> 2 then y - 1 else y);
          era = y' div 400;
          yoe = y' - era * 400;
          doy = (153 * (if m > 2 then m - 3 else m + 9) + 2) div 5 + d - 1;
          doe = yoe * 365 + yoe div 4 - yoe div 100 + doy
      in era * 146097 + doe - 719468)"

definition civil_from_days :: "int \<Rightarrow> int \<times> int \<times> int" where
  "civil_from_days z =
     (let z' = z + 719468;
          era = z' div 146097;
          doe = z' - era * 146097;
          yoe = (doe - doe div 1460 + doe div 36524 - doe div 146096) div 365;
          doy = doe - (365 * yoe + yoe div 4 - yoe div 100);
          mp = (5 * doy + 2) div 153;
          d = doy - (153 * mp + 2) div 5 + 1;
          m = (if mp < 10 then mp + 3 else mp - 9)
      in (yoe + era * 400 + (if m \<le> 2 then 1 else 0), m, d))"

definition iso_day :: "jsstring \<Rightarrow> int option" where
  "iso_day s =
     (if length s = 10 \<and> s ! 4 = 0x2D \<and> s ! 7 = 0x2D then
        (case (decimal (take 4 s), decimal (take 2 (drop 5 s)), decimal (drop 8 s)) of
           (Some y, Some m, Some d) \<Rightarrow>
             if 1 \<le> m \<and> m \<le> 12 \<and> 1 \<le> d \<and> d \<le> days_in_month y m
             then Some (days_from_civil y m d) else None
         | _ \<Rightarrow> None)
      else None)"

definition iso_time_of_day :: "jsstring \<Rightarrow> int option" where
  "iso_time_of_day s =
     (if length s = 14 \<and> s ! 0 = 0x54 \<and> s ! 3 = 0x3A \<and> s ! 6 = 0x3A \<and> s ! 9 = 0x2E \<and>
         s ! 13 = 0x5A then
        (case (decimal (take 2 (drop 1 s)), decimal (take 2 (drop 4 s)),
               decimal (take 2 (drop 7 s)), decimal (take 3 (drop 10 s))) of
           (Some h, Some mi, Some sec, Some ms) \<Rightarrow>
             if h \<le> 23 \<and> mi \<le> 59 \<and> sec \<le> 59
             then Some (((h * 60 + mi) * 60 + sec) * 1000 + ms) else None
         | _ \<Rightarrow> None)
      else None)"

definition iso_dateTime :: "jsstring \<Rightarrow> int option" where
  "iso_dateTime s =
     (if length s = 10 then map_option (\<lambda>d. d * 86400000) (iso_day s)
      else if length s = 24 then
        (case (iso_day (take 10 s), iso_time_of_day (drop 10 s)) of
           (Some d, Some t) \<Rightarrow> Some (d * 86400000 + t)
         | _ \<Rightarrow> None)
      else None)"

fun pad :: "nat \<Rightarrow> int \<Rightarrow> jsstring" where
  "pad 0 v = []"
| "pad (Suc n) v = pad n (v div 10) @ [of_int (48 + v mod 10)]"

definition iso_toISOString :: "int \<Rightarrow> jsstring" where
  "iso_toISOString t =
     (let ms = t mod 86400000 in
      case civil_from_days (t div 86400000) of
        (y, m, d) \<Rightarrow>
          (if 0 \<le> y \<and> y \<le> 9999 then pad 4 y
           else (if y < 0 then js ''-'' else js ''+'') @ pad 6 \<bar>y\<bar>) @
          js ''-'' @ pad 2 m @ js ''-'' @ pad 2 d @ js ''T'' @ pad 2 (ms div 3600000) @
          js '':'' @ pad 2 (ms div 60000 mod 60) @ js '':'' @ pad 2 (ms div 1000 mod 60) @
          js ''.'' @ pad 3 (ms mod 1000) @ js ''Z'')"

definition reference_platform :: platform where
  "reference_platform =
     \<lparr>toLowerCase = ascii_lower, localeCompare = code_unit_compare,
      dateTime = iso_dateTime, toISOString = iso_toISOString\<rparr>"


section \<open>Example data\<close>

definition task_a :: task where
  "task_a =
     \<lparr>task_id = js ''a'', title = js ''Write report'', description = js ''Quarterly figures'',
      completed = False, createdAt = js ''2024-05-01T09:00:00.000Z'',
      dueDate = Some (js ''2024-05-03T00:00:00.000Z''), priority = High\<rparr>"

definition task_b :: task where
  "task_b =
     \<lparr>task_id = js ''b'', title = js ''Buy milk'', description = [],
      completed = True, createdAt = js ''2024-05-01T10:00:00.000Z'',
      dueDate = None, priority = Low\<rparr>"

definition task_c :: task where
  "task_c =
     \<lparr>task_id = js ''c'', title = js ''Call Ann'', description = js ''about the report'',
      completed = False, createdAt = js ''2024-05-01T11:00:00.000Z'',
      dueDate = Some (js ''2024-05-02T00:00:00.000Z''), priority = Medium\<rparr>"

definition page_abc :: page where
  "page_abc = initialPage\<lparr>tasks := [task_a, task_b, task_c]\<rparr>"



definition blank_page :: page where
  "blank_page =
     page_abc\<lparr>draft :=
       \<lparr>draft_title = [0x20, 0x09, 0xA0], draft_description = js ''2 litres'',
        draft_dueDate = js ''2024-05-04'', draft_priority = High\<rparr>\<rparr>"

definition active_filter :: FilterState where
  "active_filter = defaultFilter\<lparr>status := Active\<rparr>"

definition due_filter :: FilterState where
  "due_filter = defaultFilter\<lparr>sort_option := Due\<rparr>"

definition report_filter :: FilterState where
  "report_filter = defaultFilter\<lparr>query := js ''Report ''\<rparr>"


definition storage_of :: "jsstring \<Rightarrow> storage" where
  "storage_of saved = Map.empty(LOCAL_STORAGE_KEY \<mapsto> saved)"

definition text_b :: jsstring where
  \<open>text_b =
     js ''[{"id":"b","title":"Buy milk","description":"","completed":true,'' @
     js ''"createdAt":"2024-05-01T10:00:00.000Z","priority":"low"}]''\<close>

section \<open>Properties of the task store\<close>

lemma all_dropWhile_iff: "(\<forall>x\<in>set (dropWhile P xs). P x) \<longleftrightarrow> (\<forall>x\<in>set xs. P x)"
  by (induction xs) auto

lemma trim_empty_iff: "trim s = [] \<longleftrightarrow> (\<forall>c\<in>set s. is_whitespace c)"
  by (simp add: trim_def dropWhile_eq_Nil_conv all_dropWhile_iff)

lemma count_list_filter: "P x \<Longrightarrow> count_list (filter P xs) x = count_list xs x"
  by (induction xs) auto



text \<open>
  C2. A draft whose title is empty or has white space only leaves the page as it is:
  the same collection, no new task, and a normal return.
\<close>

theorem handleSubmit_blank_title:
  assumes "\<forall>c\<in>set (draft_title (draft s)). is_whitespace c"
  shows "handleSubmit P uuid now s = Inr s"
  using assms by (simp add: handleSubmit_def trim_empty_iff)

theorem handleSubmit_blank_title_witness:
  "draft_title (draft blank_page) = [0x20, 0x09, 0xA0] \<and>
   is_whitespace 0x20 \<and> is_whitespace 0x09 \<and> is_whitespace 0xA0 \<and>
   handleSubmit reference_platform (js ''d'') 1714557600000 blank_page = Inr blank_page \<and>
   draft_title (draft page_abc) = [] \<and>
   handleSubmit reference_platform (js ''d'') 1714557600000 page_abc = Inr page_abc"
proof -
  have t: "draft_title (draft blank_page) = [0x20, 0x09, 0xA0]"
    by code_simp
  have w: "is_whitespace 0x20" "is_whitespace 0x09" "is_whitespace 0xA0"
    by (simp_all add: is_whitespace_def)
  have h: "\<forall>c\<in>set (draft_title (draft blank_page)). is_whitespace c"
    using w by (simp add: t)
  have t0: "draft_title (draft page_abc) = []"
    by code_simp
  have h0: "\<forall>c\<in>set (draft_title (draft page_abc)). is_whitespace c"
    by (simp add: t0)
  show ?thesis
    using t w t0 handleSubmit_blank_title[OF h] handleSubmit_blank_title[OF h0] by blast
qed

text \<open>
  C3. \<open>clearCompleted\<close> replaces the collection by its tasks that are not completed:
  what is left is a subsequence of the collection, holds no completed task, and holds
  every task that is not completed as often as before.
\<close>

theorem clearCompleted_keeps_active:
  "tasks (clearCompleted s) = filter (\<lambda>t. \<not> completed t) (tasks s) \<and>
   subseq (tasks (clearCompleted s)) (tasks s) \<and>
   (\<forall>t\<in>set (tasks (clearCompleted s)). \<not> completed t) \<and>
   (\<forall>t. \<not> completed t \<longrightarrow> count_list (tasks (clearCompleted s)) t = count_list (tasks s) t)"
  by (simp add: clearCompleted_def count_list_filter)

theorem clearCompleted_keeps_active_witness:
  "tasks (clearCompleted page_abc) = [task_a, task_c] \<and>
   task_a \<in> set (tasks (clearCompleted page_abc)) \<and> \<not> completed task_a \<and>
   count_list (tasks (clearCompleted page_abc)) task_a = count_list (tasks page_abc) task_a"
proof -
  have run: "tasks (clearCompleted page_abc) = [task_a, task_c]"
    by code_simp
  have a: "\<not> completed task_a"
    by code_simp
  have mem: "task_a \<in> set (tasks (clearCompleted page_abc))"
    by (simp add: run)
  show ?thesis
    using clearCompleted_keeps_active[of page_abc] run a mem by blast
qed

lemma updateTask_without_id_createdAt:
  assumes "patch_id p = None" and "patch_createdAt p = None"
  shows "map task_id (tasks (updateTask i p s)) = map task_id (tasks s) \<and>
         map createdAt (tasks (updateTask i p s)) = map createdAt (tasks s)"
  using assms by (simp add: updateTask_def spread_patch_def)

text \<open>
  C7. \<open>updateTask\<close> is local to the page and is called at two places: by the checkbox
  with the patch \<open>{ completed }\<close> and by the button "Cycle priority" with the patch
  \<open>{ priority }\<close>. For each of these patches, whatever the identifier it is called
  with, every task of the collection has the same \<open>id\<close> and the same \<open>createdAt\<close>
  after the update as before.
\<close>

theorem updateTask_keeps_id_createdAt:
  assumes "p = checkbox_patch b \<or> p = cycle_patch t0"
  shows "map task_id (tasks (updateTask i p s)) = map task_id (tasks s) \<and>
         map createdAt (tasks (updateTask i p s)) = map createdAt (tasks s)"
proof -
  from assms have "patch_id p = None" and "patch_createdAt p = None"
    by (auto simp: checkbox_patch_def cycle_patch_def emptyPatch_def)
  then show ?thesis
    by (rule updateTask_without_id_createdAt)
qed

text \<open>
  The checkbox of \<open>task_a\<close> is ticked, and the priority of \<open>task_a\<close> is cycled from
  high to medium.
\<close>

theorem updateTask_keeps_id_createdAt_witness:
  "map task_id (tasks (updateTask (task_id task_a) (checkbox_patch True) page_abc)) =
     map task_id (tasks page_abc) \<and>
   map createdAt (tasks (updateTask (task_id task_a) (checkbox_patch True) page_abc)) =
     map createdAt (tasks page_abc) \<and>
   map completed (tasks (updateTask (task_id task_a) (checkbox_patch True) page_abc)) =
     [True, True, False] \<and>
   map task_id (tasks (updateTask (task_id task_a) (cycle_patch task_a) page_abc)) =
     map task_id (tasks page_abc) \<and>
   map createdAt (tasks (updateTask (task_id task_a) (cycle_patch task_a) page_abc)) =
     map createdAt (tasks page_abc) \<and>
   map priority (tasks (updateTask (task_id task_a) (cycle_patch task_a) page_abc)) =
     [Medium, Low, Medium]"
proof -
  have h: "checkbox_patch True = checkbox_patch True \<or> checkbox_patch True = cycle_patch task_a"
    by simp
  have k: "cycle_patch task_a = checkbox_patch True \<or> cycle_patch task_a = cycle_patch task_a"
    by simp
  have run1: "map completed (tasks (updateTask (task_id task_a) (checkbox_patch True) page_abc)) =
     [True, True, False]"
    by code_simp
  have run2: "map priority (tasks (updateTask (task_id task_a) (cycle_patch task_a) page_abc)) =
     [Medium, Low, Medium]"
    by code_simp
  show ?thesis
    using run1 run2 updateTask_keeps_id_createdAt[OF h, of "task_id task_a" page_abc]
      updateTask_keeps_id_createdAt[OF k, of "task_id task_a" page_abc]
    by simp
qed

section \<open>Properties of the view projector\<close>

lemma starts_with_iff: "starts_with s t \<longleftrightarrow> prefix t s"
  by (induction s t rule: starts_with.induct) auto

lemma string_includes_iff: "string_includes s t \<longleftrightarrow> sublist t s"
  by (induction s) (auto simp: starts_with_iff sublist_Cons_right)

lemma filter_callback_without_query:
  assumes "trim (query f) = []"
  shows "filter_callback P f t \<longleftrightarrow>
           (status f = Active \<longrightarrow> \<not> completed t) \<and>
           (status f = Completed \<longrightarrow> completed t) \<and>
           (priority_filter f = AllPriorities \<or> priority_filter f = Only (priority t))"
  using assms by (cases "status f") (auto simp: filter_callback_def)

text \<open>
  C5, as amended. When the query is empty after trimming, the filter keeps exactly the
  tasks that pass the tests on the status and on the priority; the query drops none of
  them. With the status \<open>all\<close> and the priority \<open>all\<close> it keeps every task.
\<close>

theorem filter_callback_empty_query:
  assumes "trim (query f) = []"
  shows "filter (filter_callback P f) ts =
           filter (\<lambda>t. (status f = Active \<longrightarrow> \<not> completed t) \<and>
                       (status f = Completed \<longrightarrow> completed t) \<and>
                       (priority_filter f = AllPriorities \<or>
                        priority_filter f = Only (priority t))) ts \<and>
         (status f = AllStatus \<and> priority_filter f = AllPriorities \<longrightarrow>
            filter (filter_callback P f) ts = ts)"
proof -
  have "filter_callback P f =
          (\<lambda>t. (status f = Active \<longrightarrow> \<not> completed t) \<and>
               (status f = Completed \<longrightarrow> completed t) \<and>
               (priority_filter f = AllPriorities \<or> priority_filter f = Only (priority t)))"
    by (rule ext) (rule filter_callback_without_query[OF assms])
  then show ?thesis by simp
qed

theorem filter_callback_empty_query_witness:
  "trim (query defaultFilter) = [] \<and>
   status defaultFilter = AllStatus \<and> priority_filter defaultFilter = AllPriorities \<and>
   filter (filter_callback reference_platform defaultFilter) [task_a, task_b, task_c] =
     [task_a, task_b, task_c]"
proof -
  have h: "trim (query defaultFilter) = []"
    by code_simp
  have s: "status defaultFilter = AllStatus" "priority_filter defaultFilter = AllPriorities"
    by (simp_all add: defaultFilter_def)
  show ?thesis
    using h s filter_callback_empty_query[OF h, of reference_platform "[task_a, task_b, task_c]"]
    by blast
qed

text \<open>
  C5 as stated fails: with an empty query and the status \<open>active\<close>, the completed task
  \<open>task_b\<close> of the collection is not kept.
\<close>

theorem filter_callback_empty_query_counterexample:
  "trim (query active_filter) = [] \<and> task_b \<in> set [task_a, task_b, task_c] \<and>
   filter (filter_callback reference_platform active_filter) [task_a, task_b, task_c] =
     [task_a, task_c] \<and>
   task_b \<notin> set (filter (filter_callback reference_platform active_filter)
     [task_a, task_b, task_c])"
  by code_simp

text \<open>
  C10. When the query is not empty after trimming, a task passes the filter when it
  passes the tests on status and priority and the lower-cased query, as typed, with its
  white space, occurs in the lower-cased title or description. The trimmed query is
  used for the test of emptiness only.
\<close>

theorem filter_callback_raw_query:
  assumes "trim (query f) \<noteq> []"
  shows "filter_callback P f t \<longleftrightarrow>
           (status f = Active \<longrightarrow> \<not> completed t) \<and>
           (status f = Completed \<longrightarrow> completed t) \<and>
           (priority_filter f = AllPriorities \<or> priority_filter f = Only (priority t)) \<and>
           (sublist (toLowerCase P (query f)) (toLowerCase P (title t)) \<or>
            sublist (toLowerCase P (query f)) (toLowerCase P (description t)))"
  using assms by (auto simp: filter_callback_def string_includes_iff Let_def)

text \<open>
  The query \<open>Report\<close> followed by a space: the trimmed query occurs in the title
  \<open>Write report\<close> of \<open>task_a\<close>, the query as typed does not, and the task is dropped.
\<close>

theorem filter_callback_raw_query_witness:
  "trim (query report_filter) \<noteq> [] \<and> query report_filter \<noteq> trim (query report_filter) \<and>
   \<not> filter_callback reference_platform report_filter task_a \<and>
   \<not> sublist (toLowerCase reference_platform (query report_filter))
       (toLowerCase reference_platform (title task_a)) \<and>
   sublist (toLowerCase reference_platform (trim (query report_filter)))
     (toLowerCase reference_platform (title task_a))"
proof -
  have h: "trim (query report_filter) \<noteq> []"
    by code_simp
  have d: "query report_filter \<noteq> trim (query report_filter)"
    by code_simp
  have n: "\<not> filter_callback reference_platform report_filter task_a"
    by code_simp
  have sp: "status report_filter = AllStatus" "priority_filter report_filter = AllPriorities"
    by (simp_all add: report_filter_def defaultFilter_def)
  have "string_includes (toLowerCase reference_platform (title task_a))
          (toLowerCase reference_platform (trim (query report_filter)))"
    by code_simp
  then have t: "sublist (toLowerCase reference_platform (trim (query report_filter)))
     (toLowerCase reference_platform (title task_a))"
    by (simp add: string_includes_iff)
  from n sp filter_callback_raw_query[OF h, of reference_platform task_a]
  have "\<not> sublist (toLowerCase reference_platform (query report_filter))
       (toLowerCase reference_platform (title task_a))"
    by simp
  with h d n t show ?thesis by blast
qed

subsection \<open>The order by due date\<close>

lemma insert_sorted_key:
  assumes "\<forall>y\<in>set ys. sort_compare cmp x y \<le> 0 \<longleftrightarrow> key x \<le> key y"
  shows "insert_sorted cmp x ys = insort_key key x ys"
  using assms by (induction ys) auto

lemma array_sort_key:
  assumes "\<forall>x\<in>set xs. \<forall>y\<in>set xs. sort_compare cmp x y \<le> 0 \<longleftrightarrow> key x \<le> key y"
  shows "array_sort cmp xs = sort_key key xs"
  using assms
proof (induction xs)
  case Nil
  then show ?case by (simp add: array_sort_def)
next
  case (Cons x xs)
  then have "array_sort cmp xs = sort_key key xs" by simp
  moreover have "\<forall>y\<in>set (sort_key key xs). sort_compare cmp x y \<le> 0 \<longleftrightarrow> key x \<le> key y"
    using Cons.prems by simp
  ultimately show ?case
    using insert_sorted_key[of "sort_key key xs" cmp x key] by (simp add: array_sort_def)
qed

lemma due_compare_key:
  assumes "sort_option f = Due"
    and "has_due a \<longrightarrow> due_time P a \<noteq> None" and "has_due b \<longrightarrow> due_time P b \<noteq> None"
  shows "sort_compare (sort_callback P f) a b \<le> 0 \<longleftrightarrow> due_key P a \<le> due_key P b"
  using assms
  by (auto simp: sort_compare_def sort_callback_def due_key_def minus_number_def
      less_eq_prod_def)

lemma due_key_le:
  assumes "has_due a \<longrightarrow> due_time P a \<noteq> None" and "has_due b \<longrightarrow> due_time P b \<noteq> None"
  shows "due_key P a \<le> due_key P b \<longleftrightarrow> due_le P a b"
  using assms by (auto simp: due_key_def due_le_def less_eq_prod_def)

lemma due_key_undated: "(\<lambda>t. due_key P t = (1, 0)) = (\<lambda>t. \<not> has_due t)"
  by (auto simp: due_key_def)

lemma filteredTasks_due_sort_key:
  assumes "sort_option f = Due" and "\<forall>t\<in>set ts. has_due t \<longrightarrow> due_time P t \<noteq> None"
  shows "filteredTasks P ts f = sort_key (due_key P) (filter (filter_callback P f) ts)"
  unfolding filteredTasks_def
  by (rule array_sort_key) (use assms in \<open>auto simp: due_compare_key\<close>)

text \<open>
  C6. With the sort key \<open>due\<close>, and every due date of the collection a date, the
  projected sequence is a rearrangement of the tasks the filter keeps, in which the
  tasks with a due date stand in ascending order of their time and before every task
  without one. The callback ranks two tasks without a due date as equal, and the sort,
  being stable, leaves them in the order they had.
\<close>

theorem filteredTasks_due_order:
  assumes "sort_option f = Due" and "\<forall>t\<in>set ts. has_due t \<longrightarrow> due_time P t \<noteq> None"
  shows "mset (filteredTasks P ts f) = mset (filter (filter_callback P f) ts) \<and>
         sorted_wrt (due_le P) (filteredTasks P ts f) \<and>
         filter (\<lambda>t. \<not> has_due t) (filteredTasks P ts f) =
           filter (\<lambda>t. \<not> has_due t) (filter (filter_callback P f) ts) \<and>
         (\<forall>a b. \<not> has_due a \<and> \<not> has_due b \<longrightarrow> sort_callback P f a b = Some 0)"
proof -
  let ?kept = "filter (filter_callback P f) ts"
  let ?r = "filteredTasks P ts f"
  have eq: "?r = sort_key (due_key P) ?kept"
    using assms by (rule filteredTasks_due_sort_key)
  have perm: "mset ?r = mset ?kept"
    by (simp add: eq)
  have "sorted (map (due_key P) ?r)"
    by (simp add: eq)
  then have "sorted_wrt (\<lambda>a b. due_key P a \<le> due_key P b) ?r"
    by (simp add: sorted_map)
  moreover have "\<forall>t\<in>set ?r. has_due t \<longrightarrow> due_time P t \<noteq> None"
    using assms(2) by (simp add: eq)
  ultimately have ordered: "sorted_wrt (due_le P) ?r"
    by (auto intro: sorted_wrt_mono_rel[rotated] simp: due_key_le)
  have "filter (\<lambda>t. due_key P t = (1, 0)) (sort_key (due_key P) ?kept) =
        filter (\<lambda>t. due_key P t = (1, 0)) ?kept"
    by (rule sort_key_stable)
  then have stable: "filter (\<lambda>t. \<not> has_due t) ?r = filter (\<lambda>t. \<not> has_due t) ?kept"
    unfolding eq due_key_undated .
  have "\<forall>a b. \<not> has_due a \<and> \<not> has_due b \<longrightarrow> sort_callback P f a b = Some 0"
    using assms(1) by (simp add: sort_callback_def)
  with perm ordered stable show ?thesis by blast
qed

text \<open>
  The example of the claim: \<open>task_a\<close> is due on 3 May, \<open>task_b\<close> has no due date,
  \<open>task_c\<close> is due on 2 May.
\<close>

theorem filteredTasks_due_order_witness:
  "sort_option due_filter = Due \<and>
   due_time reference_platform task_a = Some 1714694400000 \<and>
   \<not> has_due task_b \<and>
   due_time reference_platform task_c = Some 1714608000000 \<and>
   filteredTasks reference_platform [task_a, task_b, task_c] due_filter =
     [task_c, task_a, task_b] \<and>
   sorted_wrt (due_le reference_platform)
     (filteredTasks reference_platform [task_a, task_b, task_c] due_filter)"
proof -
  have h1: "sort_option due_filter = Due"
    by (simp add: due_filter_def)
  have a: "due_time reference_platform task_a = Some 1714694400000"
    by code_simp
  have b: "\<not> has_due task_b"
    by code_simp
  have c: "due_time reference_platform task_c = Some 1714608000000"
    by code_simp
  have h2: "\<forall>t\<in>set [task_a, task_b, task_c]. has_due t \<longrightarrow> due_time reference_platform t \<noteq> None"
    using a b c by simp
  have run: "filteredTasks reference_platform [task_a, task_b, task_c] due_filter =
     [task_c, task_a, task_b]"
    by code_simp
  show ?thesis
    using h1 a b c run filteredTasks_due_order[OF h1 h2] by blast
qed

subsection \<open>The effect on the collection\<close>

text \<open>
  C8. Computing \<open>filteredTasks\<close> on a store leaves every array that was there as it
  was, the collection among them: the result is a new array. What that array holds is a
  function of the collection and the filter alone, and computing it again gives an
  array with the same tasks in the same order, without touching the first result.
\<close>

theorem filteredTasks_store_frame:
  assumes "a < length h"
  shows "\<exists>h1 r1 h2 r2.
           filteredTasks_store P f h a = Some (h1, r1) \<and>
           filteredTasks_store P f h1 a = Some (h2, r2) \<and>
           take (length h) h1 = h \<and> take (length h) h2 = h \<and>
           h1 ! a = h ! a \<and> h2 ! a = h ! a \<and>
           h1 ! r1 = filteredTasks P (h ! a) f \<and>
           h2 ! r2 = h1 ! r1 \<and> h2 ! r1 = h1 ! r1"
  using assms
  by (simp add: filteredTasks_store_def array_spread_def array_filter_def
      array_sort_in_place_def filteredTasks_def nth_append)

theorem filteredTasks_store_frame_witness:
  "(0::nat) < length [[task_a, task_b, task_c]] \<and>
   filteredTasks_store reference_platform due_filter [[task_a, task_b, task_c]] 0 =
     Some ([[task_a, task_b, task_c], [task_a, task_b, task_c], [task_c, task_a, task_b]], 2) \<and>
   (\<exists>h1 r1 h2 r2.
      filteredTasks_store reference_platform due_filter [[task_a, task_b, task_c]] 0 =
        Some (h1, r1) \<and>
      filteredTasks_store reference_platform due_filter h1 0 = Some (h2, r2) \<and>
      h1 ! 0 = [task_a, task_b, task_c] \<and> h2 ! 0 = [task_a, task_b, task_c] \<and>
      h2 ! r2 = h1 ! r1)"
proof -
  have h: "(0::nat) < length [[task_a, task_b, task_c]]"
    by simp
  have run: "filteredTasks_store reference_platform due_filter [[task_a, task_b, task_c]] 0 =
     Some ([[task_a, task_b, task_c], [task_a, task_b, task_c], [task_c, task_a, task_b]], 2)"
    by code_simp
  from filteredTasks_store_frame[OF h, of reference_platform due_filter]
  have "\<exists>h1 r1 h2 r2.
      filteredTasks_store reference_platform due_filter [[task_a, task_b, task_c]] 0 =
        Some (h1, r1) \<and>
      filteredTasks_store reference_platform due_filter h1 0 = Some (h2, r2) \<and>
      h1 ! 0 = [task_a, task_b, task_c] \<and> h2 ! 0 = [task_a, task_b, task_c] \<and>
      h2 ! r2 = h1 ! r1"
    by (simp del: ex_simps) blast
  with h run show ?thesis by blast
qed


section \<open>Properties of JSON text\<close>

subsection \<open>The parser always consumes input\<close>


lemma parse_value_cases:
  assumes "parse_value ts = Some (v, rest)"
  shows "length rest < length ts \<or>
         (\<exists>ts' vs. ts = LBracket # ts' \<and> parse_elements [] ts' = Some (vs, rest)) \<or>
         (\<exists>ts' ms. ts = LBrace # ts' \<and> parse_members [] ts' = Some (ms, rest))"
proof (cases ts)
  case Nil
  with assms show ?thesis by (simp add: parse_value.simps)
next
  case (Cons t ts')
  show ?thesis
  proof (cases t)
    case LBrace
    with assms Cons show ?thesis
      by (cases ts') (auto simp: parse_value.simps split: token.splits)
  next
    case LBracket
    with assms Cons show ?thesis
      by (cases ts') (auto simp: parse_value.simps split: token.splits)
  qed (use assms Cons in \<open>auto simp: parse_value.simps\<close>)
qed

lemma parse_elements_cases:
  assumes "parse_elements acc ts = Some (vs, rest)"
  shows "\<exists>v r. parse_value ts = Some (v, r) \<and>
           (r = RBracket # rest \<or>
            (\<exists>r'. r = Comma # r' \<and> parse_elements (acc @ [v]) r' = Some (vs, rest)))"
proof -
  note eq = parse_elements.simps[of acc ts]
  from assms obtain v r where pv: "parse_value ts = Some (v, r)"
    by (cases "parse_value ts") (auto simp: eq)
  show ?thesis
  proof (cases r)
    case Nil
    with assms pv show ?thesis by (simp add: eq)
  next
    case (Cons t r')
    show ?thesis
    proof (cases t)
      case Comma
      with assms pv Cons have "parse_elements (acc @ [v]) r' = Some (vs, rest)"
        by (simp add: eq split: if_splits)
      with pv Cons Comma show ?thesis by blast
    next
      case RBracket
      with assms pv Cons have "r' = rest"
        by (simp add: eq)
      with pv Cons RBracket show ?thesis by blast
    qed (use assms pv Cons in \<open>simp_all add: eq\<close>)
  qed
qed

lemma parse_members_shape:
  assumes "parse_members acc ts \<noteq> None"
  shows "\<exists>k ts'. ts = TString k # Colon # ts'"
proof (cases ts)
  case Nil
  with assms show ?thesis by (simp add: parse_members.simps[of acc "[]"])
next
  case outer: (Cons t ts1)
  show ?thesis
  proof (cases t)
    case (TString k)
    show ?thesis
    proof (cases ts1)
      case Nil
      with assms outer TString show ?thesis
        by (simp add: parse_members.simps[of acc "[TString k]"])
    next
      case (Cons u ts2)
      show ?thesis
      proof (cases u)
        case Colon
        with outer TString Cons show ?thesis by simp
      qed (use assms outer TString Cons in
          \<open>simp_all add: parse_members.simps[of _ "_ # _ # _"]\<close>)
    qed
  qed (use assms outer in \<open>simp_all add: parse_members.simps[of _ "_ # _"]\<close>)
qed

lemma parse_members_cases:
  assumes "parse_members acc ts = Some (ms, rest)"
  shows "\<exists>k ts' v r. ts = TString k # Colon # ts' \<and> parse_value ts' = Some (v, r) \<and>
           (r = RBrace # rest \<or>
            (\<exists>r'. r = Comma # r' \<and>
               parse_members (define_property acc k v) r' = Some (ms, rest)))"
proof -
  from assms have "parse_members acc ts \<noteq> None" by simp
  then obtain k ts' where ts: "ts = TString k # Colon # ts'"
    using parse_members_shape by blast
  note eq = parse_members.simps[of acc "TString k # Colon # ts'"]
  from assms obtain v r where pv: "parse_value ts' = Some (v, r)"
    unfolding ts by (cases "parse_value ts'") (auto simp: eq)
  show ?thesis
  proof (cases r)
    case Nil
    with assms pv show ?thesis unfolding ts by (simp add: eq)
  next
    case (Cons t r')
    show ?thesis
    proof (cases t)
      case Comma
      with assms pv Cons have
        "parse_members (define_property acc k v) r' = Some (ms, rest)"
        unfolding ts by (simp add: eq split: if_splits)
      with ts pv Cons Comma show ?thesis by blast
    next
      case RBrace
      with assms pv Cons have "r' = rest"
        unfolding ts by (simp add: eq)
      with ts pv Cons RBrace show ?thesis by blast
    qed (use assms pv Cons in \<open>simp_all add: ts eq\<close>)
  qed
qed

lemma parse_rest_shorter:
  "(\<forall>v rest. parse_value ts = Some (v, rest) \<longrightarrow> length rest < length ts) \<and>
   (\<forall>acc vs rest. parse_elements acc ts = Some (vs, rest) \<longrightarrow> length rest < length ts) \<and>
   (\<forall>acc ms rest. parse_members acc ts = Some (ms, rest) \<longrightarrow> length rest < length ts)"
proof (induction ts rule: length_induct)
  case (1 ts)
  then have ih: "(\<forall>v rest. parse_value ys = Some (v, rest) \<longrightarrow> length rest < length ys) \<and>
      (\<forall>acc vs rest. parse_elements acc ys = Some (vs, rest) \<longrightarrow> length rest < length ys) \<and>
      (\<forall>acc ms rest. parse_members acc ys = Some (ms, rest) \<longrightarrow> length rest < length ys)"
    if "length ys < length ts" for ys
    using that by blast
  note ih_value = ih[THEN conjunct1, rule_format]
  note ih_elements = ih[THEN conjunct2, THEN conjunct1, rule_format]
  note ih_members = ih[THEN conjunct2, THEN conjunct2, rule_format]
  have value_shorter: "length rest < length ts" if pv: "parse_value ts = Some (v, rest)" for v rest
  proof -
    from parse_value_cases[OF pv] consider
      "length rest < length ts"
      | ts' vs where "ts = LBracket # ts'" "parse_elements [] ts' = Some (vs, rest)"
      | ts' ms where "ts = LBrace # ts'" "parse_members [] ts' = Some (ms, rest)"
      by blast
    then show ?thesis
    proof cases
      case 1
      then show ?thesis .
    next
      case 2
      from 2(1) have "length ts' < length ts" by simp
      from ih_elements[OF this 2(2)] 2(1) show ?thesis by simp
    next
      case 3
      from 3(1) have "length ts' < length ts" by simp
      from ih_members[OF this 3(2)] 3(1) show ?thesis by simp
    qed
  qed
  have elements_shorter: "length rest < length ts"
    if pe: "parse_elements acc ts = Some (vs, rest)" for acc vs rest
  proof -
    from parse_elements_cases[OF pe] obtain v r where
      pv: "parse_value ts = Some (v, r)" and
      alt: "r = RBracket # rest \<or>
            (\<exists>r'. r = Comma # r' \<and> parse_elements (acc @ [v]) r' = Some (vs, rest))"
      by blast
    have r: "length r < length ts" using pv by (rule value_shorter)
    from alt show ?thesis
    proof
      assume "r = RBracket # rest"
      with r show ?thesis by simp
    next
      assume "\<exists>r'. r = Comma # r' \<and> parse_elements (acc @ [v]) r' = Some (vs, rest)"
      then obtain r' where r': "r = Comma # r'"
        and pe': "parse_elements (acc @ [v]) r' = Some (vs, rest)" by blast
      from r r' have "length r' < length ts" by simp
      from ih_elements[OF this pe'] r r' show ?thesis by simp
    qed
  qed
  have members_shorter: "length rest < length ts"
    if pm: "parse_members acc ts = Some (ms, rest)" for acc ms rest
  proof -
    from parse_members_cases[OF pm] obtain k ts' v r where
      ts: "ts = TString k # Colon # ts'" and
      pv: "parse_value ts' = Some (v, r)" and
      alt: "r = RBrace # rest \<or>
            (\<exists>r'. r = Comma # r' \<and>
               parse_members (define_property acc k v) r' = Some (ms, rest))"
      by blast
    from ts have "length ts' < length ts" by simp
    from ih_value[OF this pv] have r: "length r < length ts'" .
    from alt show ?thesis
    proof
      assume "r = RBrace # rest"
      with r ts show ?thesis by simp
    next
      assume "\<exists>r'. r = Comma # r' \<and>
               parse_members (define_property acc k v) r' = Some (ms, rest)"
      then obtain r' where r': "r = Comma # r'"
        and pm': "parse_members (define_property acc k v) r' = Some (ms, rest)" by blast
      from r r' ts have "length r' < length ts" by simp
      from ih_members[OF this pm'] r r' ts show ?thesis by simp
    qed
  qed
  from value_shorter elements_shorter members_shorter show ?case by blast
qed

lemma parse_value_rest:
  assumes "parse_value ts = Some (v, rest)"
  shows "length rest < length ts"
  using parse_rest_shorter assms by blast

lemma parse_elements_unfold:
  "parse_elements acc ts =
     (case parse_value ts of
        None \<Rightarrow> None
      | Some (v, rest) \<Rightarrow>
          (case rest of
             Comma # rest' \<Rightarrow> parse_elements (acc @ [v]) rest'
           | RBracket # rest' \<Rightarrow> Some (acc @ [v], rest')
           | _ \<Rightarrow> None))"
proof (cases "parse_value ts")
  case None
  then show ?thesis by (simp add: parse_elements.simps[of acc ts])
next
  case (Some p)
  obtain v rest where p: "p = (v, rest)" by (cases p)
  have shorter: "length rest < length ts"
    using Some p by (intro parse_value_rest) simp
  show ?thesis
  proof (cases rest)
    case Nil
    with Some p show ?thesis by (simp add: parse_elements.simps[of acc ts])
  next
    case (Cons t rest')
    with shorter have "length rest' < length ts" by simp
    with Some p Cons show ?thesis
      by (cases t) (simp_all add: parse_elements.simps[of acc ts])
  qed
qed

lemma parse_members_unfold:
  "parse_members acc (TString k # Colon # ts) =
     (case parse_value ts of
        None \<Rightarrow> None
      | Some (v, rest) \<Rightarrow>
          (case rest of
             Comma # rest' \<Rightarrow> parse_members (define_property acc k v) rest'
           | RBrace # rest' \<Rightarrow> Some (define_property acc k v, rest')
           | _ \<Rightarrow> None))"
proof (cases "parse_value ts")
  case None
  then show ?thesis by (simp add: parse_members.simps[of _ "_ # _ # _"])
next
  case (Some p)
  obtain v rest where p: "p = (v, rest)" by (cases p)
  have shorter: "length rest < length ts"
    using Some p by (intro parse_value_rest) simp
  show ?thesis
  proof (cases rest)
    case Nil
    with Some p show ?thesis by (simp add: parse_members.simps[of _ "_ # _ # _"])
  next
    case (Cons t rest')
    with shorter have "length rest' < Suc (Suc (length ts))" by simp
    with Some p Cons show ?thesis
      by (cases t) (simp_all add: parse_members.simps[of _ "_ # _ # _"])
  qed
qed

subsection \<open>Reading back what was written\<close>


lemma hex_parts:
  fixes n :: nat
  shows "((n div 4096 * 16 + n div 256 mod 16) * 16 + n div 16 mod 16) * 16 + n mod 16 = n"
proof -
  have a: "n div 256 = n div 16 div 16" and b: "n div 4096 = n div 16 div 16 div 16"
    by (simp_all add: div_mult2_eq[symmetric])
  have "n div 16 div 16 div 16 * 16 + n div 16 div 16 mod 16 = n div 16 div 16"
    by (rule div_mult_mod_eq)
  moreover have "n div 16 div 16 * 16 + n div 16 mod 16 = n div 16"
    by (rule div_mult_mod_eq)
  moreover have "n div 16 * 16 + n mod 16 = n"
    by (rule div_mult_mod_eq)
  ultimately show ?thesis
    unfolding a b by simp
qed

lemma hex_top:
  fixes n :: nat
  assumes "n < 65536"
  shows "n div 4096 < 16"
  using assms by (simp add: less_mult_imp_div_less)

lemma unat_of_nat_code_unit: "k < 65536 \<Longrightarrow> unat (of_nat k :: code_unit) = k"
  by (simp add: unat_of_nat)

lemma hex_value_unat:
  "hex_value c =
     (if 48 \<le> unat c \<and> unat c \<le> 57 then Some (unat c - 48)
      else if 97 \<le> unat c \<and> unat c \<le> 102 then Some (unat c - 87)
      else if 65 \<le> unat c \<and> unat c \<le> 70 then Some (unat c - 55)
      else None)"
  by (simp add: hex_value_def word_le_nat_alt)

lemma unat_hex_digit: "n < 16 \<Longrightarrow> unat (hex_digit n) = (if n < 10 then 48 + n else 87 + n)"
  by (simp add: hex_digit_def unat_of_nat_code_unit)

lemma hex_value_hex_digit: "n < 16 \<Longrightarrow> hex_value (hex_digit n) = Some n"
  by (simp add: hex_value_unat unat_hex_digit)

lemma hex4_value_unicode_escape:
  "hex4_value (hex_digit (unat c div 4096)) (hex_digit (unat c div 256 mod 16))
     (hex_digit (unat c div 16 mod 16)) (hex_digit (unat c mod 16)) = Some c"
proof -
  have "unat c < 65536" using unsigned_less[of c, where ?'a = nat] by simp
  then have p: "hex_value (hex_digit (unat c div 4096)) = Some (unat c div 4096)"
    by (intro hex_value_hex_digit hex_top)
  have q: "hex_value (hex_digit (unat c div 256 mod 16)) = Some (unat c div 256 mod 16)"
    and r: "hex_value (hex_digit (unat c div 16 mod 16)) = Some (unat c div 16 mod 16)"
    and s: "hex_value (hex_digit (unat c mod 16)) = Some (unat c mod 16)"
    by (simp_all add: hex_value_hex_digit)
  have "hex4_value (hex_digit (unat c div 4096)) (hex_digit (unat c div 256 mod 16))
     (hex_digit (unat c div 16 mod 16)) (hex_digit (unat c mod 16)) =
     Some (of_nat (((unat c div 4096 * 16 + unat c div 256 mod 16) * 16 +
       unat c div 16 mod 16) * 16 + unat c mod 16))"
    by (simp only: hex4_value_def p q r s option.case)
  also have "\<dots> = Some (of_nat (unat c))"
    by (simp only: hex_parts)
  finally show ?thesis by simp
qed

lemma scan_string_unicode_escape:
  "scan_string (unicode_escape c @ xs) = map_option (apfst (Cons c)) (scan_string xs)"
  by (simp add: unicode_escape_def hex4_value_unicode_escape)

lemma scan_string_quote_unit:
  "scan_string (quote_unit c @ xs) = map_option (apfst (Cons c)) (scan_string xs)"
  unfolding quote_unit_def
  by (auto simp: scan_string_unicode_escape escape_value_def)

lemma scan_string_literal:
  assumes "\<not> c < 0x20" and "c \<noteq> 0x22" and "c \<noteq> 0x5C"
  shows "scan_string (c # xs) = map_option (apfst (Cons c)) (scan_string xs)"
  using assms by simp

lemma surrogate_literal:
  assumes "is_high_surrogate c \<or> is_low_surrogate c"
  shows "\<not> c < 0x20 \<and> c \<noteq> 0x22 \<and> c \<noteq> 0x5C"
  using assms
  by (auto simp: is_high_surrogate_def is_low_surrogate_def word_le_nat_alt word_less_nat_alt)

lemma scan_string_quote_units:
  "scan_string (quote_units s @ 0x22 # rest) = Some (s, rest)"
proof (induction s rule: quote_units.induct)
  case 1
  then show ?case by simp
next
  case (2 c)
  have "scan_string (quote_unit c @ 0x22 # rest) = Some ([c], rest)"
    by (simp only: scan_string_quote_unit) simp
  then show ?case by simp
next
  case (3 c d cs)
  show ?case
  proof (cases "is_high_surrogate c \<and> is_low_surrogate d")
    case True
    then have c: "\<not> c < 0x20 \<and> c \<noteq> 0x22 \<and> c \<noteq> 0x5C"
      and d: "\<not> d < 0x20 \<and> d \<noteq> 0x22 \<and> d \<noteq> 0x5C"
      by (simp_all add: surrogate_literal)
    have "scan_string (c # d # quote_units cs @ 0x22 # rest) =
               map_option (apfst (Cons c)) (map_option (apfst (Cons d))
                 (scan_string (quote_units cs @ 0x22 # rest)))"
      using c d by (simp add: scan_string_literal del: scan_string.simps)
    with True 3 show ?thesis by simp
  next
    case False
    then have q: "quote_units (c # d # cs) = quote_unit c @ quote_units (d # cs)"
      by auto
    have ih: "scan_string (quote_units (d # cs) @ 0x22 # rest) = Some (d # cs, rest)"
      using False 3(2) by blast
    show ?thesis
      by (simp add: q scan_string_quote_unit ih del: scan_string.simps quote_units.simps)
  qed
qed

lemma lex_punctuation:
  "lex (0x7B # cs) = map_option (Cons LBrace) (lex cs)"
  "lex (0x7D # cs) = map_option (Cons RBrace) (lex cs)"
  "lex (0x5B # cs) = map_option (Cons LBracket) (lex cs)"
  "lex (0x5D # cs) = map_option (Cons RBracket) (lex cs)"
  "lex (0x3A # cs) = map_option (Cons Colon) (lex cs)"
  "lex (0x2C # cs) = map_option (Cons Comma) (lex cs)"
  by (simp_all add: lex.simps(2) is_json_space_def)

lemma lex_QuoteJSONString:
  "lex (QuoteJSONString s @ rest) = map_option (Cons (TString s)) (lex rest)"
  by (simp add: QuoteJSONString_def lex.simps(2) is_json_space_def scan_string_quote_units)

lemma lex_true: "lex (js ''true'' @ rest) = map_option (Cons TTrue) (lex rest)"
  by (simp add: js_def lex.simps(2) is_json_space_def is_digit_def)

lemma lex_false: "lex (js ''false'' @ rest) = map_option (Cons TFalse) (lex rest)"
  by (simp add: js_def lex.simps(2) is_json_space_def is_digit_def)

lemma lex_key_id:
  \<open>lex (js ''{"id":'' @ rest) =
     map_option (\<lambda>ts. LBrace # TString (js ''id'') # Colon # ts) (lex rest)\<close>
  by (simp add: js_def lex.simps(2) is_json_space_def is_digit_def option.map_comp comp_def)

lemma lex_key_title:
  \<open>lex (js '',"title":'' @ rest) =
     map_option (\<lambda>ts. Comma # TString (js ''title'') # Colon # ts) (lex rest)\<close>
  by (simp add: js_def lex.simps(2) is_json_space_def is_digit_def option.map_comp comp_def)

lemma lex_key_description:
  \<open>lex (js '',"description":'' @ rest) =
     map_option (\<lambda>ts. Comma # TString (js ''description'') # Colon # ts) (lex rest)\<close>
  by (simp add: js_def lex.simps(2) is_json_space_def is_digit_def option.map_comp comp_def)

lemma lex_key_completed:
  \<open>lex (js '',"completed":'' @ rest) =
     map_option (\<lambda>ts. Comma # TString (js ''completed'') # Colon # ts) (lex rest)\<close>
  by (simp add: js_def lex.simps(2) is_json_space_def is_digit_def option.map_comp comp_def)

lemma lex_key_createdAt:
  \<open>lex (js '',"createdAt":'' @ rest) =
     map_option (\<lambda>ts. Comma # TString (js ''createdAt'') # Colon # ts) (lex rest)\<close>
  by (simp add: js_def lex.simps(2) is_json_space_def is_digit_def option.map_comp comp_def)

lemma lex_key_dueDate:
  \<open>lex (js '',"dueDate":'' @ rest) =
     map_option (\<lambda>ts. Comma # TString (js ''dueDate'') # Colon # ts) (lex rest)\<close>
  by (simp add: js_def lex.simps(2) is_json_space_def is_digit_def option.map_comp comp_def)

lemma lex_key_priority:
  \<open>lex (js '',"priority":'' @ rest) =
     map_option (\<lambda>ts. Comma # TString (js ''priority'') # Colon # ts) (lex rest)\<close>
  by (simp add: js_def lex.simps(2) is_json_space_def is_digit_def option.map_comp comp_def)

lemma lex_close_brace: "lex (js ''}'' @ rest) = map_option (Cons RBrace) (lex rest)"
  by (simp add: js_def lex.simps(2) is_json_space_def)

lemma lex_stringify_task:
  "lex (stringify_task t @ rest) = map_option (\<lambda>r. task_tokens t @ r) (lex rest)"
  by (cases "dueDate t"; cases "completed t")
    (simp_all add: stringify_task_def task_tokens_def lex_key_id lex_key_title
      lex_key_description lex_key_completed lex_key_createdAt lex_key_dueDate
      lex_key_priority lex_close_brace lex_QuoteJSONString lex_true lex_false
      option.map_comp comp_def)

lemma lex_join_comma:
  "lex (join_comma (map stringify_task ts) @ rest) =
     map_option (\<lambda>r. join_tokens (map task_tokens ts) @ r) (lex rest)"
proof (induction ts)
  case Nil
  then show ?case by (simp add: option.map_ident)
next
  case (Cons t ts)
  show ?case
  proof (cases ts)
    case Nil
    then show ?thesis by (simp add: lex_stringify_task)
  next
    case (Cons u us)
    with Cons.IH show ?thesis
      by (simp add: lex_stringify_task lex_punctuation option.map_comp comp_def)
  qed
qed

lemma lex_JSON_stringify:
  "lex (JSON_stringify ts) = Some (LBracket # join_tokens (map task_tokens ts) @ [RBracket])"
  by (simp add: JSON_stringify_def lex_punctuation lex_join_comma option.map_comp)

lemma parse_members_string_comma:
  "parse_members acc (TString k # Colon # TString s # Comma # rest) =
     parse_members (define_property acc k (JString s)) rest"
  by (subst parse_members.simps) (simp add: parse_value.simps)

lemma parse_members_true_comma:
  "parse_members acc (TString k # Colon # TTrue # Comma # rest) =
     parse_members (define_property acc k (JBool True)) rest"
  by (subst parse_members.simps) (simp add: parse_value.simps)

lemma parse_members_false_comma:
  "parse_members acc (TString k # Colon # TFalse # Comma # rest) =
     parse_members (define_property acc k (JBool False)) rest"
  by (subst parse_members.simps) (simp add: parse_value.simps)

lemma parse_members_string_close:
  "parse_members acc (TString k # Colon # TString s # RBrace # rest) =
     Some (define_property acc k (JString s), rest)"
  by (subst parse_members.simps) (simp add: parse_value.simps)

lemma parse_value_object:
  "parse_value (LBrace # TString k # ts) =
     map_option (apfst JObject) (parse_members [] (TString k # ts))"
  by (subst parse_value.simps) simp

lemma parse_value_task_tokens:
  "parse_value (task_tokens t @ rest) = Some (json_of_task t, rest)"
  by (cases "dueDate t"; cases "completed t")
    (simp_all add: task_tokens_def json_of_task_def parse_value_object
      parse_members_string_comma parse_members_true_comma parse_members_false_comma
      parse_members_string_close js_def)

lemma parse_elements_join_tokens:
  "parse_elements acc (join_tokens (map task_tokens (t # ts)) @ RBracket # rest) =
     Some (acc @ map json_of_task (t # ts), rest)"
proof (induction ts arbitrary: acc t)
  case Nil
  show ?case
    by (subst parse_elements.simps) (simp add: parse_value_task_tokens)
next
  case (Cons u us)
  have "parse_elements acc (join_tokens (map task_tokens (t # u # us)) @ RBracket # rest) =
        parse_elements acc
          (task_tokens t @ Comma # join_tokens (map task_tokens (u # us)) @ RBracket # rest)"
    by simp
  also have "\<dots> = parse_elements (acc @ [json_of_task t])
                      (join_tokens (map task_tokens (u # us)) @ RBracket # rest)"
    by (subst parse_elements.simps) (simp add: parse_value_task_tokens)
  also have "\<dots> = Some ((acc @ [json_of_task t]) @ map json_of_task (u # us), rest)"
    by (rule Cons.IH)
  finally show ?case by simp
qed

lemma join_tokens_starts_with_brace:
  "\<exists>more. join_tokens (map task_tokens (t # ts)) @ rest = LBrace # more"
  by (cases ts) (simp_all add: task_tokens_def)

lemma parse_value_array_tokens:
  "parse_value (LBracket # join_tokens (map task_tokens ts) @ [RBracket]) =
     Some (JArray (map json_of_task ts), [])"
proof (cases ts)
  case Nil
  show ?thesis
    unfolding Nil by (subst parse_value.simps) simp
next
  case (Cons t us)
  obtain more where more: "join_tokens (map task_tokens (t # us)) @ [RBracket] = LBrace # more"
    using join_tokens_starts_with_brace by blast
  have "parse_value (LBracket # LBrace # more) =
        map_option (apfst JArray) (parse_elements [] (LBrace # more))"
    by (subst parse_value.simps) simp
  then have "parse_value (LBracket # join_tokens (map task_tokens (t # us)) @ [RBracket]) =
        map_option (apfst JArray)
          (parse_elements [] (join_tokens (map task_tokens (t # us)) @ [RBracket]))"
    by (simp only: more)
  also have "\<dots> = Some (JArray (map json_of_task (t # us)), [])"
    by (simp only: parse_elements_join_tokens) simp
  finally show ?thesis
    unfolding Cons .
qed

lemma JSON_parse_stringify:
  "JSON_parse (JSON_stringify ts) = Inr (JArray (map json_of_task ts))"
  by (simp add: JSON_parse_def lex_JSON_stringify parse_value_array_tokens)

lemma priority_of_string_priority_string: "priority_of_string (priority_string p) = Some p"
  by (cases p) (simp_all add: priority_of_string_def js_def)

lemma task_of_json_json_of_task: "task_of_json (json_of_task t) = Some t"
  by (cases "dueDate t")
    (simp_all add: task_of_json_def json_of_task_def string_member_def bool_member_def
      optional_string_member_def priority_of_string_priority_string js_def)


section \<open>Properties of persistence\<close>

lemma JSON_stringify_not_empty: "JSON_stringify ts \<noteq> []"
  by (simp add: JSON_stringify_def)

text \<open>
  C9. Writing a collection with the second effect and reading the storage with the
  first gives the collection back: \<open>setTasks\<close> receives one value for each task, in
  the same order, and each value is the task it was written from, field for field. A
  task without a due date comes back without one. Nothing is logged.
\<close>

theorem persist_load_round_trip:
  "load_effect (persist_effect ts st) current = Inr (map json_of_task ts, []) \<and>
   map task_of_json (map json_of_task ts) = map Some ts \<and>
   length (map json_of_task ts) = length ts"
  by (simp add: load_effect_def persist_effect_def JSON_stringify_not_empty
      JSON_parse_stringify try_catch_def task_of_json_json_of_task comp_def)

theorem persist_load_round_trip_witness:
  "JSON_stringify [task_b] = text_b \<and>
   persist_effect [task_b] Map.empty LOCAL_STORAGE_KEY = Some text_b \<and>
   load_effect (persist_effect [task_b] Map.empty) [] = Inr ([json_of_task task_b], []) \<and>
   task_of_json (json_of_task task_b) = Some task_b \<and> dueDate task_b = None"
proof -
  have printed: "JSON_stringify [task_b] = text_b"
    by code_simp
  have stored: "persist_effect [task_b] Map.empty LOCAL_STORAGE_KEY = Some text_b"
    by (simp add: persist_effect_def printed)
  have due: "dueDate task_b = None"
    by code_simp
  show ?thesis
    using printed stored due persist_load_round_trip[of "[task_b]" Map.empty "[]"] by simp
qed

text \<open>
  The guards of the first effect. It never throws; a snapshot that is missing, empty,
  not JSON text, or JSON text of a value that is not an array leaves the collection as
  it was, which is empty when the page is mounted, and a text that is not JSON is
  logged.
\<close>

lemma load_effect_fallback:
  "(\<exists>r. load_effect st current = Inr r) \<and>
   (st LOCAL_STORAGE_KEY = None \<or> st LOCAL_STORAGE_KEY = Some []
      \<longrightarrow> load_effect st current = Inr (current, [])) \<and>
   (\<forall>saved e. st LOCAL_STORAGE_KEY = Some saved \<and> saved \<noteq> [] \<and> JSON_parse saved = Inl e
      \<longrightarrow> load_effect st current = Inr (current, [e])) \<and>
   (\<forall>saved v. st LOCAL_STORAGE_KEY = Some saved \<and> saved \<noteq> [] \<and> JSON_parse saved = Inr v \<and>
        (\<forall>xs. v \<noteq> JArray xs)
      \<longrightarrow> load_effect st current = Inr (current, []))"
proof -
  have total: "\<exists>r. load_effect st current = Inr r"
    by (auto simp: load_effect_def try_catch_def split: option.splits sum.splits json.splits)
  have absent: "st LOCAL_STORAGE_KEY = None \<or> st LOCAL_STORAGE_KEY = Some []
      \<longrightarrow> load_effect st current = Inr (current, [])"
    by (auto simp: load_effect_def)
  have broken: "\<forall>saved e. st LOCAL_STORAGE_KEY = Some saved \<and> saved \<noteq> [] \<and>
      JSON_parse saved = Inl e \<longrightarrow> load_effect st current = Inr (current, [e])"
    by (simp add: load_effect_def try_catch_def)
  have other: "\<forall>saved v. st LOCAL_STORAGE_KEY = Some saved \<and> saved \<noteq> [] \<and>
      JSON_parse saved = Inr v \<and> (\<forall>xs. v \<noteq> JArray xs)
      \<longrightarrow> load_effect st current = Inr (current, [])"
    by (auto simp: load_effect_def try_catch_def split: json.splits)
  from total absent broken other show ?thesis by blast
qed

text \<open>
  A text that is not JSON, and the JSON text of an object, both leave the empty
  collection; the first is logged.
\<close>

lemma load_effect_fallback_examples:
  "JSON_parse (js ''not json'') = Inl SyntaxError \<and>
   load_effect (storage_of (js ''not json'')) [] = Inr ([], [SyntaxError]) \<and>
   JSON_parse (js ''{ }'') = Inr (JObject []) \<and>
   load_effect (storage_of (js ''{ }'')) [] = Inr ([], []) \<and>
   load_effect Map.empty [] = Inr ([], [])"
proof -
  have k1: "storage_of (js ''not json'') LOCAL_STORAGE_KEY = Some (js ''not json'')"
    and k2: "storage_of (js ''{ }'') LOCAL_STORAGE_KEY = Some (js ''{ }'')"
    by (simp_all add: storage_of_def)
  have n1: "js ''not json'' \<noteq> []" and n2: "js ''{ }'' \<noteq> []"
    by (simp_all add: js_def)
  have p1: "JSON_parse (js ''not json'') = Inl SyntaxError"
    by code_simp
  have p2: "JSON_parse (js ''{ }'') = Inr (JObject [])"
    by code_simp
  have o: "\<forall>xs. JObject [] \<noteq> JArray xs"
    by simp
  note facts = load_effect_fallback[of "storage_of (js ''not json'')" "[]"]
    load_effect_fallback[of "storage_of (js ''{ }'')" "[]"]
    load_effect_fallback[of Map.empty "[]"]
  have r1: "load_effect (storage_of (js ''not json'')) [] = Inr ([], [SyntaxError])"
    using facts(1) k1 n1 p1 by blast
  have r2: "load_effect (storage_of (js ''{ }'')) [] = Inr ([], [])"
    using facts(2) k2 n2 p2 o by blast
  have r3: "load_effect Map.empty [] = Inr ([], [])"
    using facts(3) by simp
  from p1 r1 p2 r2 r3 show ?thesis by blast
qed

text \<open>
  C4. A snapshot that is not a well-formed sequence of task-shaped records is to give
  the empty collection. The effect does so for the snapshots its guards cover
  (\<open>load_effect_fallback\<close>), but the test \<open>Array.isArray\<close> does not look at the
  elements: the snapshot \<open>[1]\<close> is JSON text of an array whose element is not
  task-shaped, and the collection after the effect is not the empty one but that
  array, with the number in it.
\<close>

theorem load_effect_malformed_array:
  "JSON_parse (js ''[1]'') = Inr (JArray [JNumber (js ''1'')]) \<and>
   task_of_json (JNumber (js ''1'')) = None \<and>
   load_effect (storage_of (js ''[1]'')) [] = Inr ([JNumber (js ''1'')], []) \<and>
   [JNumber (js ''1'')] \<noteq> []"
proof -
  have p: "JSON_parse (js ''[1]'') = Inr (JArray [JNumber (js ''1'')])"
    by code_simp
  have t: "task_of_json (JNumber (js ''1'')) = None"
    by (simp add: task_of_json_def)
  have n: "js ''[1]'' \<noteq> []"
    by (simp add: js_def)
  have "load_effect (storage_of (js ''[1]'')) [] = Inr ([JNumber (js ''1'')], [])"
    using n by (simp add: load_effect_def storage_of_def try_catch_def p)
  with p t show ?thesis by simp
qed

end
